theory Spec2Isabelle
  imports Main "HOL-Library.Char_ord" "HOL-Library.List_Lexorder"
begin

section \<open>Run status\<close>

text \<open>
  \<^verbatim>\<open>docs/walkthrough/run-job.md\<close> prints \<^verbatim>\<open>Run status: CREATED\<close> right after
  \<^verbatim>\<open>finetuner.fit\<close> and lists the statuses a run goes through: CREATED (submitted to the
  job queue), STARTED (in progress), FINISHED (finished successfully), FAILED (the job
  failed).
\<close>

datatype run_status = CREATED | STARTED | FINISHED | FAILED

text \<open>
  Modelled from the spec: the status machine of \<^verbatim>\<open>finetuner.run.Run\<close>. The class and the
  service that drives it are not among the given sources; the spec gives the lifecycle as
  \<^verbatim>\<open>CREATED -> STARTED -> FINISHED | FAILED\<close>. \<open>next_statuses s\<close> lists the statuses
  a run in status \<open>s\<close> can change to, \<open>initial_status\<close> is the status of a new run, and
  \<open>lifecycle s h\<close> says that \<open>h\<close> is a sequence of status changes starting from \<open>s\<close>.
\<close>

definition initial_status :: run_status where
  "initial_status = CREATED"

fun next_statuses :: "run_status \<Rightarrow> run_status list" where
  "next_statuses CREATED = [STARTED]"
| "next_statuses STARTED = [FINISHED, FAILED]"
| "next_statuses FINISHED = []"
| "next_statuses FAILED = []"

fun lifecycle :: "run_status \<Rightarrow> run_status list \<Rightarrow> bool" where
  "lifecycle s [] = True"
| "lifecycle s (t # ts) = (t \<in> set (next_statuses s) \<and> lifecycle t ts)"

definition terminal :: "run_status \<Rightarrow> bool" where
  "terminal s = (s = FINISHED \<or> s = FAILED)"

section \<open>GitHub Actions workflows\<close>

text \<open>
  The two workflow files \<^verbatim>\<open>.github/workflows/ci.yml\<close> and
  \<^verbatim>\<open>.github/workflows/remote-ci.yml\<close> as data: the \<^verbatim>\<open>on:\<close> block, and for each job its
  \<^verbatim>\<open>needs:\<close>, its \<^verbatim>\<open>if:\<close> and its steps.
\<close>

datatype event =
    Push
  | Repository_dispatch string string  \<comment> \<open>event type, \<^verbatim>\<open>client_payload.branch\<close>\<close>
  | Other_event string

datatype trigger =
    On_push
  | On_repository_dispatch "string list"  \<comment> \<open>\<^verbatim>\<open>types:\<close>\<close>

fun trigger_matches :: "trigger \<Rightarrow> event \<Rightarrow> bool" where
  "trigger_matches On_push Push = True"
| "trigger_matches (On_repository_dispatch types) (Repository_dispatch t b) = (t \<in> set types)"
| "trigger_matches _ _ = False"

datatype ref_expr =
    Client_payload_branch  \<comment> \<open>\<^verbatim>\<open>${{ github.event.client_payload.branch }}\<close>\<close>

text \<open>An expression that is absent from the event evaluates to the empty string.\<close>

fun eval_ref :: "event \<Rightarrow> ref_expr \<Rightarrow> string" where
  "eval_ref (Repository_dispatch t b) Client_payload_branch = b"
| "eval_ref _ Client_payload_branch = []"

datatype script =
    Exit nat     \<comment> \<open>\<^verbatim>\<open>run: exit n\<close>\<close>
  | Echo string  \<comment> \<open>\<^verbatim>\<open>run: echo ...\<close>\<close>
  | Shell        \<comment> \<open>any other script: its exit status depends on the tools it calls\<close>

datatype step_if =
    If_implicit                  \<comment> \<open>no \<^verbatim>\<open>if:\<close>, which stands for \<^verbatim>\<open>success()\<close>\<close>
  | If_env_equals string string  \<comment> \<open>\<^verbatim>\<open>if: env.NAME == 'value'\<close>\<close>
  | If_success                   \<comment> \<open>\<^verbatim>\<open>if: ${{ success() }}\<close>\<close>

datatype step =
    Checkout                       \<comment> \<open>\<^verbatim>\<open>uses: actions/checkout@v2\<close>, no inputs\<close>
  | Checkout_of string ref_expr    \<comment> \<open>\<^verbatim>\<open>uses: actions/checkout@v3\<close> with \<^verbatim>\<open>repository:\<close> and \<^verbatim>\<open>ref:\<close>\<close>
  | Workflow_conclusion_action     \<comment> \<open>\<^verbatim>\<open>uses: technote-space/workflow-conclusion-action@v2\<close>\<close>
  | Uses string                    \<comment> \<open>any other action\<close>
  | Run string step_if script      \<comment> \<open>\<^verbatim>\<open>name:\<close>, \<^verbatim>\<open>if:\<close>, \<^verbatim>\<open>run:\<close>\<close>

record job =
  job_name :: string
  needs :: "string list"
  if_always :: bool  \<comment> \<open>\<^verbatim>\<open>if: always()\<close> on the job\<close>
  steps :: "step list"

record workflow =
  triggers :: "trigger list"
  jobs :: "job list"

definition workflow_triggered :: "workflow \<Rightarrow> event \<Rightarrow> bool" where
  "workflow_triggered wfl ev = list_ex (\<lambda>t. trigger_matches t ev) (triggers wfl)"

subsection \<open>ci.yml\<close>

definition check_codestyle :: job where
  "check_codestyle = \<lparr>job_name = ''check-codestyle'', needs = [], if_always = False,
     steps = [Checkout, Uses ''actions/setup-python@v2'',
              Run ''Install requirements'' If_implicit Shell,
              Run ''Lint with flake8, black and isort'' If_implicit Shell]\<rparr>"

definition run_tests :: job where
  "run_tests = \<lparr>job_name = ''run-tests'', needs = [], if_always = False,
     steps = [Checkout, Uses ''actions/setup-python@v2'',
              Run ''Install requirements'' If_implicit Shell,
              Run ''Run tests'' If_implicit Shell]\<rparr>"

definition success_all_test :: job where
  "success_all_test = \<lparr>job_name = ''success-all-test'', needs = [''run-tests''],
     if_always = True,
     steps = [Workflow_conclusion_action,
              Run ''Check Failure'' (If_env_equals ''WORKFLOW_CONCLUSION'' ''failure'') (Exit 1),
              Run ''Success'' If_success (Echo ''All Done'')]\<rparr>"

definition ci :: workflow where
  "ci = \<lparr>triggers = [On_push], jobs = [check_codestyle, run_tests, success_all_test]\<rparr>"

subsection \<open>remote-ci.yml\<close>

definition finetuner_core :: step where
  "finetuner_core = Checkout_of ''jina-ai/finetuner-core'' Client_payload_branch"

definition style_flake :: job where
  "style_flake = \<lparr>job_name = ''style-flake'', needs = [], if_always = False,
     steps = [Checkout, Uses ''actions/setup-python@v2'', finetuner_core,
              Run ''Install requirements'' If_implicit Shell,
              Run ''Lint with flake8'' If_implicit Shell]\<rparr>"

definition style_black :: job where
  "style_black = \<lparr>job_name = ''style-black'', needs = [], if_always = False,
     steps = [Checkout, Uses ''actions/setup-python@v2'', finetuner_core,
              Run ''Install requirements'' If_implicit Shell,
              Run ''check black'' If_implicit Shell]\<rparr>"

definition style_isort :: job where
  "style_isort = \<lparr>job_name = ''style-isort'', needs = [], if_always = False,
     steps = [Checkout, Uses ''actions/setup-python@v2'', finetuner_core,
              Run ''Install requirements'' If_implicit Shell,
              Run ''check isort'' If_implicit Shell]\<rparr>"

definition prep_testbed :: job where
  "prep_testbed = \<lparr>job_name = ''prep-testbed'',
     needs = [''style-flake'', ''style-black'', ''style-isort''], if_always = False,
     steps = [Checkout, Run ''Install jq'' If_implicit Shell, finetuner_core,
              Run ''Gather core test paths'' If_implicit Shell,
              Run ''Gather CUDA test paths'' If_implicit Shell,
              Run ''Generate UUID for the artifact of the current run'' If_implicit Shell]\<rparr>"

definition test_core :: job where
  "test_core = \<lparr>job_name = ''test-core'', needs = [''prep-testbed''], if_always = False,
     steps = [Checkout, Uses ''actions/setup-python@v2'', finetuner_core,
              Run ''Prepare enviroment'' If_implicit Shell,
              Run ''Test'' If_implicit Shell,
              Uses ''actions/upload-artifact@v3'']\<rparr>"

definition test_cuda :: job where
  "test_cuda = \<lparr>job_name = ''test-cuda'', needs = [''prep-testbed''], if_always = False,
     steps = [Checkout, Uses ''actions/setup-python@v2'', finetuner_core,
              Run ''Prepare enviroment'' If_implicit Shell,
              Run ''Test'' If_implicit Shell,
              Uses ''actions/upload-artifact@v3'']\<rparr>"

definition get_coverage :: job where
  "get_coverage = \<lparr>job_name = ''get-coverage'',
     needs = [''prep-testbed'', ''test-core'', ''test-cuda''], if_always = False,
     steps = [Checkout, Uses ''actions/setup-python@v2'', finetuner_core,
              Run ''Prepare enviroment'' If_implicit Shell,
              Uses ''actions/download-artifact@v3'',
              Run ''Combine coverages'' If_implicit Shell,
              Uses ''MishaKav/pytest-coverage-comment@main'']\<rparr>"

definition success_tests :: job where
  "success_tests = \<lparr>job_name = ''success-tests'',
     needs = [''get-coverage'', ''test-core'', ''test-cuda''], if_always = True,
     steps = [Workflow_conclusion_action,
              Run ''Check Failure'' (If_env_equals ''WORKFLOW_CONCLUSION'' ''failure'') (Exit 1),
              Run ''Success'' If_success (Echo ''All Done'')]\<rparr>"

definition remote_ci :: workflow where
  "remote_ci = \<lparr>triggers = [On_repository_dispatch [''triggered_from_core'']],
     jobs = [style_flake, style_black, style_isort, prep_testbed, test_core, test_cuda,
             get_coverage, success_tests]\<rparr>"

subsection \<open>Checkouts of another repository\<close>

fun external_checkout :: "step \<Rightarrow> (string \<times> ref_expr) option" where
  "external_checkout (Checkout_of repo r) = Some (repo, r)"
| "external_checkout _ = None"

definition external_checkouts :: "job \<Rightarrow> (string \<times> ref_expr) list" where
  "external_checkouts j = List.map_filter external_checkout (steps j)"

text \<open>The repositories a job checks out on an event, each with the ref it is checked out at.\<close>

definition checked_out :: "event \<Rightarrow> job \<Rightarrow> (string \<times> string) list" where
  "checked_out ev j = map (\<lambda>(repo, r). (repo, eval_ref ev r)) (external_checkouts j)"

subsection \<open>Running the steps of a job\<close>

text \<open>
  The conclusions GitHub gives a job or a workflow run, and the lower-case names under
  which they appear in expressions and environment variables.
\<close>

datatype conclusion =
  C_neutral | C_skipped | C_success | C_cancelled | C_timed_out | C_action_required | C_failure

fun conclusion_name :: "conclusion \<Rightarrow> string" where
  "conclusion_name C_neutral = ''neutral''"
| "conclusion_name C_skipped = ''skipped''"
| "conclusion_name C_success = ''success''"
| "conclusion_name C_cancelled = ''cancelled''"
| "conclusion_name C_timed_out = ''timed_out''"
| "conclusion_name C_action_required = ''action_required''"
| "conclusion_name C_failure = ''failure''"

text \<open>
  What a workflow cannot decide by itself: whether an action or an opaque script succeeds
  in a job (by the name of the job, then the name of the action or of the step); whether
  GitHub ends a started job with a conclusion of its own (the run is cancelled, the job
  times out) instead of the outcome of its steps; and whether a job is still unfinished at
  the moment a later job lists the jobs of the run. A job with a matrix counts as one job.
\<close>

record world =
  succeeds :: "string \<Rightarrow> string \<Rightarrow> bool"
  cut_short :: "string \<Rightarrow> conclusion option"
  unfinished :: "string \<Rightarrow> bool"

text \<open>
  The action \<^verbatim>\<open>technote-space/workflow-conclusion-action@v2\<close>, used without inputs as
  in both workflows, lists the jobs of the run, keeps the conclusions of those that have
  one (the completed jobs) and exports as \<^verbatim>\<open>WORKFLOW_CONCLUSION\<close> the one that comes
  last in the order below; when no job has a conclusion it exports \<^verbatim>\<open>skipped\<close>. The
  action is not part of this repository: this is the behaviour its documentation gives.
\<close>

definition conclusions_by_rank :: "conclusion list" where
  "conclusions_by_rank =
     [C_neutral, C_skipped, C_success, C_cancelled, C_timed_out, C_action_required, C_failure]"

definition workflow_conclusion :: "conclusion list \<Rightarrow> conclusion" where
  "workflow_conclusion cs =
     (case filter (\<lambda>c. c \<in> set cs) conclusions_by_rank of
        [] \<Rightarrow> C_skipped
      | r # rs \<Rightarrow> last (r # rs))"

type_synonym env = "string \<rightharpoonup> string"

text \<open>GitHub compares strings in expressions ignoring case; an unset variable is empty.\<close>

definition lower :: "char \<Rightarrow> char" where
  "lower c = (case map_of (zip ''ABCDEFGHIJKLMNOPQRSTUVWXYZ'' ''abcdefghijklmnopqrstuvwxyz'') c of
                Some d \<Rightarrow> d | None \<Rightarrow> c)"

definition gh_equal :: "string \<Rightarrow> string \<Rightarrow> bool" where
  "gh_equal a b = (map lower a = map lower b)"

fun env_value :: "env \<Rightarrow> string \<Rightarrow> string" where
  "env_value e k = (case e k of Some v \<Rightarrow> v | None \<Rightarrow> [])"

text \<open>
  A step runs when its condition holds; a condition without a status function is
  conjoined with \<^verbatim>\<open>success()\<close>, which holds while no earlier step has failed.
\<close>

fun step_condition :: "step \<Rightarrow> step_if" where
  "step_condition (Run n c s) = c"
| "step_condition _ = If_implicit"

fun step_runs :: "env \<Rightarrow> bool \<Rightarrow> step_if \<Rightarrow> bool" where
  "step_runs e failed If_implicit = (\<not> failed)"
| "step_runs e failed (If_env_equals k v) = (\<not> failed \<and> gh_equal (env_value e k) v)"
| "step_runs e failed If_success = (\<not> failed)"

text \<open>Whether a step that runs in the job named \<open>jn\<close> succeeds.\<close>

fun step_succeeds :: "world \<Rightarrow> string \<Rightarrow> step \<Rightarrow> bool" where
  "step_succeeds w jn Checkout = succeeds w jn ''actions/checkout@v2''"
| "step_succeeds w jn (Checkout_of repo r) = succeeds w jn ''actions/checkout@v3''"
| "step_succeeds w jn Workflow_conclusion_action =
     succeeds w jn ''technote-space/workflow-conclusion-action@v2''"
| "step_succeeds w jn (Uses a) = succeeds w jn a"
| "step_succeeds w jn (Run n c (Exit k)) = (k = 0)"
| "step_succeeds w jn (Run n c (Echo s)) = True"
| "step_succeeds w jn (Run n c Shell) = succeeds w jn n"

text \<open>
  The environment after a step that has succeeded; \<open>known\<close> are the conclusions of the jobs
  of the run that are complete.
\<close>

fun step_env :: "conclusion list \<Rightarrow> step \<Rightarrow> env \<Rightarrow> env" where
  "step_env known Workflow_conclusion_action e =
     e(''WORKFLOW_CONCLUSION'' \<mapsto> conclusion_name (workflow_conclusion known))"
| "step_env known _ e = e"

text \<open>\<open>exec_steps\<close> returns whether some step has failed.\<close>

fun exec_steps :: "world \<Rightarrow> string \<Rightarrow> conclusion list \<Rightarrow> env \<Rightarrow> bool \<Rightarrow> step list \<Rightarrow> bool" where
  "exec_steps w jn known e failed [] = failed"
| "exec_steps w jn known e failed (s # ss) =
     (if step_runs e failed (step_condition s)
      then (if step_succeeds w jn s then exec_steps w jn known (step_env known s e) failed ss
            else exec_steps w jn known e True ss)
      else exec_steps w jn known e failed ss)"

definition job_result :: "world \<Rightarrow> conclusion list \<Rightarrow> job \<Rightarrow> conclusion" where
  "job_result w known j =
     (if exec_steps w (job_name j) known Map.empty False (steps j) then C_failure else C_success)"

text \<open>
  A job without \<^verbatim>\<open>if:\<close> starts only when all the jobs it needs have succeeded; with
  \<^verbatim>\<open>if: always()\<close> it starts whatever their results.
\<close>

definition job_starts :: "job \<Rightarrow> conclusion list \<Rightarrow> bool" where
  "job_starts j needed = (if_always j \<or> list_all (\<lambda>r. r = C_success) needed)"

subsection \<open>Running the jobs of a workflow\<close>

text \<open>
  What a run records of a job that is over: its name, its conclusion, and the jobs it has
  waited for, which are the jobs it needs and the jobs these have waited for.
\<close>

record job_run =
  ran :: string
  concluded :: conclusion
  waited_for :: "string list"

definition run_of :: "job_run list \<Rightarrow> string \<Rightarrow> job_run option" where
  "run_of rs n = find (\<lambda>r. ran r = n) rs"

definition conclusion_of :: "job_run list \<Rightarrow> string \<Rightarrow> conclusion option" where
  "conclusion_of rs n = map_option concluded (run_of rs n)"

definition waits_for :: "job_run list \<Rightarrow> job \<Rightarrow> string list" where
  "waits_for rs j =
     remdups (concat (map (\<lambda>n. n # (case run_of rs n of Some r \<Rightarrow> waited_for r | None \<Rightarrow> []))
                          (needs j)))"

text \<open>
  The jobs that are complete when the job \<open>j\<close> runs its steps: those it has waited for, and
  any other job that happens to be over by then.
\<close>

definition complete_for :: "world \<Rightarrow> job_run list \<Rightarrow> job \<Rightarrow> job_run list" where
  "complete_for w rs j =
     filter (\<lambda>r. ran r \<in> set (waits_for rs j) \<or> \<not> unfinished w (ran r)) rs"

text \<open>
  A job that does not start is skipped. A job that starts ends with the outcome of its
  steps, unless GitHub ends it otherwise.
\<close>

definition job_end :: "world \<Rightarrow> string \<Rightarrow> conclusion \<Rightarrow> conclusion" where
  "job_end w n r = (case cut_short w n of Some c \<Rightarrow> c | None \<Rightarrow> r)"

definition run_job :: "world \<Rightarrow> job_run list \<Rightarrow> job \<Rightarrow> job_run" where
  "run_job w rs j =
     \<lparr>ran = job_name j,
      concluded =
        (if job_starts j (List.map_filter (conclusion_of rs) (needs j))
         then job_end w (job_name j) (job_result w (map concluded (complete_for w rs j)) j)
         else C_skipped),
      waited_for = waits_for rs j\<rparr>"

text \<open>
  The jobs of a workflow, run in the order of the file; in both files every job comes
  after the jobs it needs.
\<close>

fun run_jobs :: "world \<Rightarrow> job_run list \<Rightarrow> job list \<Rightarrow> job_run list" where
  "run_jobs w rs [] = rs"
| "run_jobs w rs (j # js) = run_jobs w (rs @ [run_job w rs j]) js"

definition run_workflow :: "world \<Rightarrow> workflow \<Rightarrow> job_run list" where
  "run_workflow w wfl = run_jobs w [] (jobs wfl)"

fun needs_listed_before :: "string list \<Rightarrow> job list \<Rightarrow> bool" where
  "needs_listed_before earlier [] = True"
| "needs_listed_before earlier (j # js) =
     (list_all (\<lambda>n. n \<in> set earlier) (needs j) \<and> needs_listed_before (earlier @ [job_name j]) js)"

text \<open>
  Two runs. In the first, of remote-ci.yml, only \<^verbatim>\<open>Lint with flake8\<close> of \<^verbatim>\<open>style-flake\<close>
  fails. In the second, of ci.yml, only the lint step of \<^verbatim>\<open>check-codestyle\<close> fails,
  before \<^verbatim>\<open>run-tests\<close> is over.
\<close>

definition flake8_fails :: world where
  "flake8_fails =
     \<lparr>succeeds = (\<lambda>jn s. \<not> (jn = ''style-flake'' \<and> s = ''Lint with flake8'')),
      cut_short = (\<lambda>jn. None), unfinished = (\<lambda>jn. False)\<rparr>"

definition codestyle_fails :: world where
  "codestyle_fails =
     \<lparr>succeeds = (\<lambda>jn s. \<not> (jn = ''check-codestyle''
                              \<and> s = ''Lint with flake8, black and isort'')),
      cut_short = (\<lambda>jn. None), unfinished = (\<lambda>jn. False)\<rparr>"

section \<open>The test matrices of remote-ci.yml\<close>

text \<open>
  The steps \<^verbatim>\<open>Gather core test paths\<close> and \<^verbatim>\<open>Gather CUDA test paths\<close> of the job
  \<^verbatim>\<open>prep-testbed\<close> run, in the checkout of the project under test,
  \<^verbatim>\<open>find 'tests' -name 'test_*.py' | xargs grep -l 'def test_' | xargs dirname | sort -u\<close>
  and the same pipeline with a second \<^verbatim>\<open>xargs grep -l 'pytest.mark.gpu'\<close> before
  \<^verbatim>\<open>xargs dirname\<close>; \<^verbatim>\<open>jq -R . | jq -cs .\<close> then writes the lines as a JSON array of
  strings, which \<^verbatim>\<open>fromJson\<close> reads back as the matrix of the test jobs. A matrix is
  given here by the lines that \<^verbatim>\<open>sort -u\<close> prints.

  Of the checkout the pipelines see two things: the names below the directory \<^verbatim>\<open>tests\<close>
  (files and directories, relative to \<^verbatim>\<open>tests\<close>, in the order \<^verbatim>\<open>find\<close> meets them), and,
  for any name, the content of the regular file that this name reaches from the working
  directory, if it reaches one.
\<close>

record checkout =
  below_tests :: "string list"
  file_at :: "string \<Rightarrow> string option"

text \<open>
  The commands of a pipeline pass texts on. \<^verbatim>\<open>find\<close>, \<^verbatim>\<open>grep -l\<close> and \<^verbatim>\<open>dirname\<close> print
  one name per line; \<^verbatim>\<open>sort\<close> reads lines, the last of which may lack its newline.
\<close>

definition newline :: char where
  "newline = CHR 0x0A"

definition text_of :: "string list \<Rightarrow> string" where
  "text_of ls = concat (map (\<lambda>l. l @ [newline]) ls)"

fun lines_from :: "string \<Rightarrow> string \<Rightarrow> string list" where
  "lines_from line [] = (if line = [] then [] else [line])"
| "lines_from line (c # cs) =
     (if c = newline then line # lines_from [] cs else lines_from (line @ [c]) cs)"

definition lines_of :: "string \<Rightarrow> string list" where
  "lines_of t = lines_from [] t"

text \<open>Shell patterns in which only \<^verbatim>\<open>*\<close> is special.\<close>

fun glob :: "string \<Rightarrow> string \<Rightarrow> bool" where
  "glob [] [] = True"
| "glob [] (c # cs) = False"
| "glob (p # ps) [] = (p = CHR ''*'' \<and> glob ps [])"
| "glob (p # ps) (c # cs) =
     (if p = CHR ''*'' then glob ps (c # cs) \<or> glob (p # ps) cs else p = c \<and> glob ps cs)"

definition basename :: "string \<Rightarrow> string" where
  "basename p = rev (takeWhile (\<lambda>c. c \<noteq> CHR ''/'') (rev p))"

text \<open>
  \<^verbatim>\<open>find root -name pat\<close> prints \<open>root\<close> and the names below it, each with \<open>root\<close> in
  front, whose last component matches the pattern.
\<close>

definition found :: "string \<Rightarrow> string \<Rightarrow> checkout \<Rightarrow> string list" where
  "found root pat c =
     filter (\<lambda>p. glob pat (basename p)) (root # map (\<lambda>p. root @ ''/'' @ p) (below_tests c))"

definition find_name :: "string \<Rightarrow> string \<Rightarrow> checkout \<Rightarrow> string" where
  "find_name root pat c = text_of (found root pat c)"

text \<open>
  \<^verbatim>\<open>xargs\<close> without options cuts its input into arguments at blanks and newlines, after
  skipping white space in front of an argument. A backslash takes the next character as
  it is, and a single or a double quote takes everything up to the next quote of the same
  kind as it is; the backslash and the quotes themselves are dropped. A quote that is not
  closed on its line is an error: \<^verbatim>\<open>xargs\<close> reads no further and runs the command on the
  arguments it has read so far.
\<close>

datatype xargs_state = Space | Norm | Quote char | Backslash

definition is_space :: "char \<Rightarrow> bool" where
  "is_space c = (c \<in> set [CHR 0x20, CHR 0x09, CHR 0x0A, CHR 0x0B, CHR 0x0C, CHR 0x0D])"

definition is_blank :: "char \<Rightarrow> bool" where
  "is_blank c = (c = CHR 0x20 \<or> c = CHR 0x09)"

function xargs_read :: "xargs_state \<Rightarrow> string \<Rightarrow> string \<Rightarrow> string list" where
  "xargs_read Space item [] = []"
| "xargs_read Norm item [] = (if item = [] then [] else [item])"
| "xargs_read (Quote q) item [] = []"
| "xargs_read Backslash item [] = (if item = [] then [] else [item])"
| "xargs_read Space item (c # cs) =
     (if is_space c then xargs_read Space [] cs else xargs_read Norm [] (c # cs))"
| "xargs_read Norm item (c # cs) =
     (if c = newline \<or> is_blank c then item # xargs_read Space [] cs
      else if c = CHR 0x5C then xargs_read Backslash item cs
      else if c = CHR 0x27 \<or> c = CHR 0x22 then xargs_read (Quote c) item cs
      else xargs_read Norm (item @ [c]) cs)"
| "xargs_read (Quote q) item (c # cs) =
     (if c = newline then []
      else if c = q then xargs_read Norm item cs
      else xargs_read (Quote q) (item @ [c]) cs)"
| "xargs_read Backslash item (c # cs) = xargs_read Norm (item @ [c]) cs"
  by pat_completeness auto
termination
  by (relation "measure (\<lambda>(st, item, input). 2 * length input + (if st = Space then 1 else 0))")
    auto

text \<open>
  \<^verbatim>\<open>xargs command\<close> runs the command once on the arguments it has read, also when there
  are none, and the output of the command is its own. A command yields no text (\<open>None\<close>)
  when one of its arguments begins with \<^verbatim>\<open>-\<close>: \<^verbatim>\<open>grep\<close> and \<^verbatim>\<open>dirname\<close> read such an
  argument as an option, and their options are left out here.
\<close>

definition xargs :: "(string list \<Rightarrow> string option) \<Rightarrow> string \<Rightarrow> string option" where
  "xargs command input = command (xargs_read Space [] input)"

definition is_option :: "string \<Rightarrow> bool" where
  "is_option a = (take 1 a = ''-'')"

text \<open>
  \<^verbatim>\<open>grep\<close> reads its pattern as a basic regular expression: the characters of the two
  patterns used here match themselves, except the dot. In the UTF-8 locale of the runner
  a dot matches one character, that is one well-formed UTF-8 sequence of one to four
  bytes, other than a newline and a NUL byte. \<^verbatim>\<open>grep\<close> matches line by line, so no match
  contains a newline.
\<close>

datatype atom = Exactly char | Any_char

definition regex :: "string \<Rightarrow> atom list" where
  "regex pat = map (\<lambda>c. if c = CHR ''.'' then Any_char else Exactly c) pat"

definition byte :: "char \<Rightarrow> nat" where
  "byte c = of_char c"

definition continuation :: "char \<Rightarrow> bool" where
  "continuation c = (0x80 \<le> byte c \<and> byte c \<le> 0xBF)"

definition between :: "nat \<Rightarrow> char \<Rightarrow> nat \<Rightarrow> bool" where
  "between lo c hi = (lo \<le> byte c \<and> byte c \<le> hi)"

text \<open>
  The number of bytes of the UTF-8 character at the head of a string, or 0 when the
  string is empty or does not begin with a well-formed character.
\<close>

fun utf8_width :: "string \<Rightarrow> nat" where
  "utf8_width [] = 0"
| "utf8_width (c # cs) =
     (if byte c < 0x80 then 1
      else if between 0xC2 c 0xDF then
        (case cs of c1 # r \<Rightarrow> if continuation c1 then 2 else 0 | _ \<Rightarrow> 0)
      else if between 0xE0 c 0xEF then
        (case cs of
           c1 # c2 # r \<Rightarrow>
             if between (if byte c = 0xE0 then 0xA0 else 0x80) c1
                  (if byte c = 0xED then 0x9F else 0xBF) \<and> continuation c2
             then 3 else 0
         | _ \<Rightarrow> 0)
      else if between 0xF0 c 0xF4 then
        (case cs of
           c1 # c2 # c3 # r \<Rightarrow>
             if between (if byte c = 0xF0 then 0x90 else 0x80) c1
                  (if byte c = 0xF4 then 0x8F else 0xBF) \<and> continuation c2 \<and> continuation c3
             then 4 else 0
         | _ \<Rightarrow> 0)
      else 0)"

fun matches_here :: "atom list \<Rightarrow> string \<Rightarrow> bool" where
  "matches_here [] s = True"
| "matches_here (Exactly a # as) s =
     (case s of [] \<Rightarrow> False | c # cs \<Rightarrow> a = c \<and> matches_here as cs)"
| "matches_here (Any_char # as) s =
     (0 < utf8_width s \<and> take 1 s \<noteq> [newline] \<and> take 1 s \<noteq> [CHR 0x00]
      \<and> matches_here as (drop (utf8_width s) s))"

fun matches :: "atom list \<Rightarrow> string \<Rightarrow> bool" where
  "matches as [] = matches_here as []"
| "matches as (c # cs) = (matches_here as (c # cs) \<or> matches as cs)"

text \<open>
  \<^verbatim>\<open>grep -l pat\<close> prints those of its arguments, in their order, that are files with a
  match.
\<close>

definition selected :: "string \<Rightarrow> checkout \<Rightarrow> string list \<Rightarrow> string list" where
  "selected pat c args =
     filter (\<lambda>a. case file_at c a of Some s \<Rightarrow> matches (regex pat) s | None \<Rightarrow> False) args"

definition grep_l :: "string \<Rightarrow> checkout \<Rightarrow> string list \<Rightarrow> string option" where
  "grep_l pat c args =
     (if list_ex is_option args then None else Some (text_of (selected pat c args)))"

definition strip_slashes :: "string \<Rightarrow> string" where
  "strip_slashes s = rev (dropWhile (\<lambda>c. c = CHR ''/'') (rev s))"

definition dirname :: "string \<Rightarrow> string" where
  "dirname p =
     (let q = strip_slashes p in
      if CHR ''/'' \<notin> set q then (if q = [] \<and> p \<noteq> [] then ''/'' else ''.'')
      else let d = strip_slashes (rev (dropWhile (\<lambda>c. c \<noteq> CHR ''/'') (rev q)))
           in if d = [] then ''/'' else d)"

text \<open>\<^verbatim>\<open>dirname\<close> prints the directory of each of its arguments.\<close>

definition dirname_all :: "string list \<Rightarrow> string option" where
  "dirname_all args =
     (if list_ex is_option args then None else Some (text_of (map dirname args)))"

text \<open>\<^verbatim>\<open>sort -u\<close>, in the byte order of the locale C.UTF-8.\<close>

definition sort_u :: "string \<Rightarrow> string list" where
  "sort_u t = remdups_adj (sort (lines_of t))"

definition core_tests_matrix :: "checkout \<Rightarrow> string list option" where
  "core_tests_matrix c =
     map_option sort_u
       (Option.bind (xargs (grep_l ''def test_'' c) (find_name ''tests'' ''test_*.py'' c))
          (xargs dirname_all))"

definition cuda_tests_matrix :: "checkout \<Rightarrow> string list option" where
  "cuda_tests_matrix c =
     map_option sort_u
       (Option.bind
          (Option.bind (xargs (grep_l ''def test_'' c) (find_name ''tests'' ''test_*.py'' c))
             (xargs (grep_l ''pytest.mark.gpu'' c)))
          (xargs dirname_all))"

text \<open>
  The characters that \<^verbatim>\<open>xargs\<close> hands on as they are, and the checkouts in which every
  name below \<^verbatim>\<open>tests\<close> is made of such characters: no white space, no quote and no
  backslash.
\<close>

definition plain_char :: "char \<Rightarrow> bool" where
  "plain_char c = (\<not> is_space c \<and> c \<noteq> CHR 0x27 \<and> c \<noteq> CHR 0x22 \<and> c \<noteq> CHR 0x5C)"

definition plain_paths :: "checkout \<Rightarrow> bool" where
  "plain_paths c = list_all (list_all plain_char) (below_tests c)"

text \<open>
  The lists of names that pass through \<^verbatim>\<open>xargs\<close> unchanged: each name is not empty, is
  made of plain characters and is not read as an option.
\<close>

definition plain_args :: "string list \<Rightarrow> bool" where
  "plain_args ls = list_all (\<lambda>l. l \<noteq> [] \<and> list_all plain_char l \<and> \<not> is_option l) ls"

text \<open>
  A string contains another when the other occurs in it as a contiguous piece; this is the
  reading of \<^verbatim>\<open>grep -l\<close> for a pattern all of whose characters match themselves.
\<close>

definition contains :: "string \<Rightarrow> string \<Rightarrow> bool" where
  "contains s sub = matches (map Exactly sub) s"

text \<open>
  The jobs \<^verbatim>\<open>test-core\<close> and \<^verbatim>\<open>test-cuda\<close> run once per entry of their matrix. The
  \<^verbatim>\<open>Test\<close> step runs \<^verbatim>\<open>make test\<close> (or \<^verbatim>\<open>make test-cuda\<close>) on the \<^verbatim>\<open>test_*.py\<close> files of
  the entry and moves \<^verbatim>\<open>.coverage\<close> to \<^verbatim>\<open>.coverage.core.\<close> (or \<^verbatim>\<open>.coverage.cuda.\<close>)
  followed by the entry with every \<^verbatim>\<open>/\<close> turned into a dot; \<^verbatim>\<open>Upload coverage\<close> adds that
  file to the artifact of the run. \<^verbatim>\<open>get-coverage\<close> downloads the artifact and runs
  \<^verbatim>\<open>coverage combine -a .coverage*\<close>.
\<close>

record matrix_job =
  make_target :: string
  tests_path :: string
  coverage_file :: string

definition coverage_name :: "string \<Rightarrow> string \<Rightarrow> string" where
  "coverage_name kind p =
     ''.coverage.'' @ kind @ ''.'' @ map (\<lambda>c. if c = CHR ''/'' then CHR ''.'' else c) p"

definition test_core_jobs :: "string list \<Rightarrow> matrix_job list" where
  "test_core_jobs m =
     map (\<lambda>p. \<lparr>make_target = ''test'', tests_path = p,
               coverage_file = coverage_name ''core'' p\<rparr>) m"

definition test_cuda_jobs :: "string list \<Rightarrow> matrix_job list" where
  "test_cuda_jobs m =
     map (\<lambda>p. \<lparr>make_target = ''test-cuda'', tests_path = p,
               coverage_file = coverage_name ''cuda'' p\<rparr>) m"

definition uploaded :: "matrix_job list \<Rightarrow> string list" where
  "uploaded js = map coverage_file js"

definition combined :: "string list \<Rightarrow> string list" where
  "combined artifact = filter (glob ''.coverage*'') artifact"

text \<open>
  Four checkouts. The first has test files in two directories, one of them marked for the
  GPU. In the second the one test file only mentions "pytest mark gpu" in a comment. The
  third has a directory whose name has a blank. The fourth has three directories below
  \<^verbatim>\<open>tests\<close>, each with a file \<^verbatim>\<open>test_x.py\<close>: their names are \<^verbatim>\<open>a b\<close> with, in
  front of the blank, nothing, three backslashes and one backslash.
\<close>

definition small_checkout :: checkout where
  "small_checkout =
     \<lparr>below_tests =
        [''unit'', ''unit/test_b.py'', ''unit/test_a.py'', ''unit/conftest.py'',
         ''integration'', ''integration/gpu'', ''integration/gpu/test_c.py'',
         ''helpers'', ''helpers/test_util.py''],
      file_at = map_of
        [(''tests/unit/test_b.py'', ''def test_b(): pass''),
         (''tests/unit/test_a.py'', ''def test_a(): pass''),
         (''tests/unit/conftest.py'', ''def test_fixture(): pass''),
         (''tests/integration/gpu/test_c.py'', ''@pytest.mark.gpu def test_c(): pass''),
         (''tests/helpers/test_util.py'', ''x = 1''),
         (''setup.py'', ''def test_(): pass'')]\<rparr>"

definition mention_checkout :: checkout where
  "mention_checkout =
     \<lparr>below_tests = [''unit'', ''unit/test_cpu.py''],
      file_at = map_of
        [(''tests/unit/test_cpu.py'', ''def test_cpu(): pass  # pytest mark gpu: no'')]\<rparr>"

definition blank_checkout :: checkout where
  "blank_checkout =
     \<lparr>below_tests = [''my dir'', ''my dir/test_a.py''],
      file_at = map_of [(''tests/my dir/test_a.py'', ''def test_a(): pass'')]\<rparr>"


section \<open>The notebooks\<close>

text \<open>
  The five notebooks, by their code cells (markdown cells, and the listings inside them,
  are not executed and are left out): Multilingual Text-to-Image Search with
  MultilingualCLIP (\<^verbatim>\<open>src/unnamed/part_000\<close>), Text-to-Image Search via CLIP
  (\<^verbatim>\<open>src/unnamed/part_001\<close>), 3D Mesh-to-3D Mesh Search via PointNet++ and Text-to-Text
  Search via BERT (both in \<^verbatim>\<open>src/unnamed/part_002\<close>), and Image-to-Image Search via ResNet50
  (\<^verbatim>\<open>docs/notebooks/image_to_image.ipynb\<close>).

  A statement is kept as the names it binds, the calls of the remote API it makes and the
  names it reads, in the order Python evaluates them.
\<close>

datatype api =
    Login          \<comment> \<open>\<^verbatim>\<open>finetuner.login\<close>\<close>
  | Pull           \<comment> \<open>\<^verbatim>\<open>DocumentArray.pull\<close>\<close>
  | Fit            \<comment> \<open>\<^verbatim>\<open>finetuner.fit\<close>\<close>
  | Stream_logs    \<comment> \<open>\<^verbatim>\<open>run.stream_logs\<close>\<close>
  | Save_artifact  \<comment> \<open>\<^verbatim>\<open>run.save_artifact\<close>\<close>
  | Get_model      \<comment> \<open>\<^verbatim>\<open>finetuner.get_model\<close>\<close>
  | Build_model    \<comment> \<open>\<^verbatim>\<open>finetuner.build_model\<close>\<close>
  | Encode         \<comment> \<open>\<^verbatim>\<open>finetuner.encode\<close>\<close>
  | Match          \<comment> \<open>\<^verbatim>\<open>DocumentArray.match\<close>\<close>

datatype simple =
    Magic                                        \<comment> \<open>a shell line, \<^verbatim>\<open>!pip install ...\<close>\<close>
  | Import "string list"                         \<comment> \<open>the names an import binds\<close>
  | Exec "string list" "api list" "string list"  \<comment> \<open>targets, API calls, names read\<close>
  | Assert "string list"                         \<comment> \<open>names read\<close>

datatype stmt =
    Do simple
  | For string "api list" "string list" "simple list"
      \<comment> \<open>target, API calls and names read of the iterable, body\<close>

type_synonym cell = "stmt list"
type_synonym notebook = "cell list"

text \<open>Statements that the notebooks share.\<close>

definition pip_install :: stmt where
  "pip_install = Do Magic"

definition import_finetuner :: stmt where
  "import_finetuner = Do (Import [''finetuner''])"

definition import_docarray :: stmt where
  "import_docarray = Do (Import [''DocumentArray'', ''Document''])"

definition login :: stmt where
  "login = Do (Exec [] [Login] [''finetuner''])"

definition pull :: "string \<Rightarrow> stmt" where
  "pull target = Do (Exec [target] [Pull] [''DocumentArray''])"

definition summary :: stmt where
  "summary = Do (Exec [] [] [''train_data''])"

definition monitoring :: stmt where
  "monitoring = For ''entry'' [Stream_logs] [''run''] [Exec [] [] [''print'', ''entry'']]"

definition save_artifact :: stmt where
  "save_artifact = Do (Exec [''artifact''] [Save_artifact] [''run''])"

definition encode :: "string \<Rightarrow> string \<Rightarrow> stmt" where
  "encode model data = Do (Exec [] [Encode] [''finetuner'', model, data])"

subsection \<open>The code cells\<close>

definition mclip_notebook :: notebook where
  "mclip_notebook =
    [[pip_install],
     [import_finetuner, import_docarray, login],
     [pull ''train_data'', pull ''eval_data'', pull ''query_data'', pull ''index_data'', summary],
     [import_finetuner, Do (Import [''EvaluationCallback'', ''WandBLogger'']),
      Do (Exec [''run''] [Fit]
        [''finetuner'', ''train_data'', ''eval_data'', ''EvaluationCallback'', ''WandBLogger''])],
     [monitoring],
     [save_artifact],
     [Do (Exec [''text_da''] [] [''DocumentArray'', ''Document'']),
      Do (Exec [''image_da''] [] [''DocumentArray'', ''Document'']),
      Do (Exec [''mclip_text_encoder''] [Get_model] [''finetuner'', ''artifact'']),
      Do (Exec [''mclip_image_encoder''] [Get_model] [''finetuner'', ''artifact'']),
      encode ''mclip_text_encoder'' ''text_da'',
      encode ''mclip_image_encoder'' ''image_da'',
      Do (Exec [] [] [''print'', ''text_da'']),
      Do (Exec [] [] [''print'', ''image_da''])]]"

definition clip_notebook :: notebook where
  "clip_notebook =
    [[pip_install],
     [import_finetuner, import_docarray, login],
     [pull ''train_data'', pull ''eval_data'', pull ''query_data'', pull ''index_data'', summary],
     [Do (Import [''EvaluationCallback'']),
      Do (Exec [''run''] [Fit] [''finetuner'', ''EvaluationCallback''])],
     [monitoring],
     [save_artifact],
     [Do (Exec [''text_da''] [] [''DocumentArray'', ''Document'']),
      Do (Exec [''image_da''] [] [''DocumentArray'', ''Document'']),
      Do (Exec [''clip_text_encoder''] [Get_model] [''finetuner'', ''artifact'']),
      Do (Exec [''clip_image_encoder''] [Get_model] [''finetuner'', ''artifact'']),
      encode ''clip_text_encoder'' ''text_da'',
      encode ''clip_image_encoder'' ''image_da'',
      Do (Exec [] [] [''print'', ''text_da'']),
      Do (Exec [] [] [''print'', ''image_da''])]]"

definition pointnet_notebook :: notebook where
  "pointnet_notebook =
    [[pip_install, pip_install],
     [import_finetuner, import_docarray, login],
     [pull ''train_data'', pull ''query_data'', pull ''index_data'', summary],
     [Do (Exec [] [] [''index_data''])],
     [Do (Import [''EvaluationCallback'']),
      Do (Exec [''run''] [Fit] [''finetuner'', ''EvaluationCallback''])],
     [monitoring],
     [save_artifact],
     [Do (Exec [''model''] [Get_model] [''finetuner'', ''artifact'']),
      encode ''model'' ''query_data'',
      encode ''model'' ''index_data'',
      Do (Assert [''query''])],
     [Do (Exec [] [Match] [''query_data'', ''index_data''])],
     [Do (Exec [''zero_shot_model''] [Build_model] [''finetuner'']),
      encode ''zero_shot_model'' ''query_data'',
      encode ''zero_shot_model'' ''index_data'',
      Do (Exec [] [Match] [''query_data'', ''index_data''])],
     [Do (Exec [] [] [''query_data'']),
      Do (Exec [] [] [''query_data''])]]"

definition bert_notebook :: notebook where
  "bert_notebook =
    [[pip_install],
     [import_finetuner, import_docarray, login],
     [pull ''train_data'', pull ''query_data'', pull ''index_data'', summary],
     [Do (Import [''EvaluationCallback'']),
      Do (Exec [''run''] [Fit] [''finetuner'', ''EvaluationCallback''])],
     [monitoring],
     [save_artifact],
     [Do (Exec [''model''] [Get_model] [''finetuner'', ''artifact'']),
      Do (Exec [''query''] [] [''DocumentArray'', ''Document'']),
      encode ''model'' ''query'',
      encode ''model'' ''index_data'',
      Do (Assert [''query''])],
     [Do (Exec [] [Match] [''query'', ''index_data''])]]"

definition resnet_notebook :: notebook where
  "resnet_notebook =
    [[pip_install],
     [import_finetuner, import_docarray, login],
     [pull ''train_data'', pull ''query_data'', pull ''index_data'', summary],
     [Do (Import [''EvaluationCallback'']),
      Do (Exec [''run''] [Fit] [''finetuner'', ''EvaluationCallback''])],
     [monitoring],
     [save_artifact],
     [Do (Exec [''query''] [] [''DocumentArray'', ''query_data'']),
      Do (Exec [''model''] [Get_model] [''finetuner'', ''artifact'']),
      encode ''model'' ''query'',
      encode ''model'' ''index_data'',
      Do (Assert [''query''])],
     [Do (Exec [] [Match] [''query'', ''index_data''])]]"

definition notebooks :: "notebook list" where
  "notebooks = [mclip_notebook, clip_notebook, pointnet_notebook, bert_notebook, resnet_notebook]"

subsection \<open>The API calls of a notebook\<close>

fun simple_calls :: "simple \<Rightarrow> api list" where
  "simple_calls (Exec targets cs reads) = cs"
| "simple_calls _ = []"

fun stmt_calls :: "stmt \<Rightarrow> api list" where
  "stmt_calls (Do s) = simple_calls s"
| "stmt_calls (For target cs reads body) = cs @ concat (map simple_calls body)"

definition calls :: "notebook \<Rightarrow> api list" where
  "calls nb = concat (map stmt_calls (concat nb))"

text \<open>
  The place of an operation in the order login, pull, fit, stream_logs, save_artifact,
  get_model (or build_model), encode, match; a sequence of calls follows the order when
  the places never decrease.
\<close>

fun stage :: "api \<Rightarrow> nat" where
  "stage Login = 0"
| "stage Pull = 1"
| "stage Fit = 2"
| "stage Stream_logs = 3"
| "stage Save_artifact = 4"
| "stage Get_model = 5"
| "stage Build_model = 5"
| "stage Encode = 6"
| "stage Match = 7"

definition in_order :: "api list \<Rightarrow> bool" where
  "in_order cs = sorted (map stage cs)"

definition loops :: "notebook \<Rightarrow> stmt list" where
  "loops nb = filter (\<lambda>s. case s of For target cs reads body \<Rightarrow> True | Do x \<Rightarrow> False) (concat nb)"

subsection \<open>Running the cells\<close>

text \<open>
  What running the cells does to the global names. The environment is the list of bound
  names; reading an unbound name raises \<^verbatim>\<open>NameError\<close>. The calls of the remote API are taken
  to return, and every \<^verbatim>\<open>for\<close> loop to receive \<open>iters\<close> items. The cells run in
  order and the run stops at the first exception.
\<close>

datatype py_error = NameError string

definition builtins :: "string list" where
  "builtins = [''print'']"

definition unbound :: "string list \<Rightarrow> string list \<Rightarrow> string option" where
  "unbound names reads = find (\<lambda>n. n \<notin> set names) reads"

definition bind :: "string list \<Rightarrow> string list \<Rightarrow> string list" where
  "bind names targets = foldl (\<lambda>ns t. if t \<in> set ns then ns else ns @ [t]) names targets"

fun exec_simple :: "string list \<Rightarrow> simple \<Rightarrow> py_error + string list" where
  "exec_simple names Magic = Inr names"
| "exec_simple names (Import targets) = Inr (bind names targets)"
| "exec_simple names (Exec targets cs reads) =
     (case unbound names reads of
        Some n \<Rightarrow> Inl (NameError n)
      | None \<Rightarrow> Inr (bind names targets))"
| "exec_simple names (Assert reads) =
     (case unbound names reads of
        Some n \<Rightarrow> Inl (NameError n)
      | None \<Rightarrow> Inr names)"

fun exec_body :: "string list \<Rightarrow> simple list \<Rightarrow> py_error + string list" where
  "exec_body names [] = Inr names"
| "exec_body names (s # ss) =
     (case exec_simple names s of
        Inl e \<Rightarrow> Inl e
      | Inr names' \<Rightarrow> exec_body names' ss)"

fun exec_loop :: "nat \<Rightarrow> string \<Rightarrow> simple list \<Rightarrow> string list \<Rightarrow> py_error + string list" where
  "exec_loop 0 target body names = Inr names"
| "exec_loop (Suc n) target body names =
     (case exec_body (bind names [target]) body of
        Inl e \<Rightarrow> Inl e
      | Inr names' \<Rightarrow> exec_loop n target body names')"

fun exec_stmt :: "nat \<Rightarrow> string list \<Rightarrow> stmt \<Rightarrow> py_error + string list" where
  "exec_stmt iters names (Do s) = exec_simple names s"
| "exec_stmt iters names (For target cs reads body) =
     (case unbound names reads of
        Some n \<Rightarrow> Inl (NameError n)
      | None \<Rightarrow> exec_loop iters target body names)"

record failure =
  cell_no :: nat  \<comment> \<open>the code cell, counted from 0\<close>
  stmt_no :: nat  \<comment> \<open>the statement of the cell, counted from 0\<close>
  error :: py_error
  bound_names :: "string list"  \<comment> \<open>the names bound when the exception is raised\<close>

fun exec_cell :: "nat \<Rightarrow> nat \<Rightarrow> nat \<Rightarrow> string list \<Rightarrow> cell \<Rightarrow> failure + string list" where
  "exec_cell iters c k names [] = Inr names"
| "exec_cell iters c k names (s # ss) =
     (case exec_stmt iters names s of
        Inl e \<Rightarrow> Inl \<lparr>cell_no = c, stmt_no = k, error = e, bound_names = names\<rparr>
      | Inr names' \<Rightarrow> exec_cell iters c (Suc k) names' ss)"

fun exec_cells :: "nat \<Rightarrow> nat \<Rightarrow> string list \<Rightarrow> notebook \<Rightarrow> failure + string list" where
  "exec_cells iters c names [] = Inr names"
| "exec_cells iters c names (x # xs) =
     (case exec_cell iters c 0 names x of
        Inl f \<Rightarrow> Inl f
      | Inr names' \<Rightarrow> exec_cells iters (Suc c) names' xs)"

definition run_all :: "nat \<Rightarrow> notebook \<Rightarrow> failure + string list" where
  "run_all iters nb = exec_cells iters 0 builtins nb"

definition names_at_end :: "failure + string list \<Rightarrow> string list" where
  "names_at_end r = (case r of Inl f \<Rightarrow> bound_names f | Inr names \<Rightarrow> names)"

subsection \<open>The monitoring loop\<close>

text \<open>
  Every notebook monitors its run with
  \<^verbatim>\<open>for entry in run.stream_logs(): print(entry)\<close>.
  The body of the loop, \<^verbatim>\<open>print(entry)\<close>, is run for each entry in turn.
\<close>

definition print_entries :: "string list \<Rightarrow> string list \<Rightarrow> string list" where
  "print_entries printed entries = foldl (\<lambda>out entry. out @ [entry]) printed entries"

text \<open>
  Modelled from the spec: \<^verbatim>\<open>run.stream_logs()\<close>, whose code (the finetuner client) is not
  among the sources. The spec describes a blocking poll or stream of the remote logs until
  the remote job reaches a terminal state. The remote run is given by what the client
  finds at its successive polls \<open>0, 1, 2, ...\<close>: the status of the run and the log entries
  that have arrived since the poll before. The generator hands these entries to the loop,
  one by one, and is exhausted after the poll that finds the run in a terminal status.

  \<open>monitor run t printed\<close> continues the loop from poll \<open>t\<close> on; the result is what has
  been printed when the loop ends, and \<open>None\<close> when it never ends.
\<close>

type_synonym remote_run = "nat \<Rightarrow> run_status \<times> string list"

partial_function (option) monitor :: "remote_run \<Rightarrow> nat \<Rightarrow> string list \<Rightarrow> string list option" where
  "monitor run t printed =
     (if terminal (fst (run t)) then Some (print_entries printed (snd (run t)))
      else monitor run (Suc t) (print_entries printed (snd (run t))))"

declare monitor.simps [code]

subsection \<open>Inference\<close>

text \<open>
  Modelled from the spec: \<^verbatim>\<open>Document\<close>, \<^verbatim>\<open>DocumentArray.embeddings\<close>,
  \<^verbatim>\<open>finetuner.get_model\<close> and \<^verbatim>\<open>finetuner.encode\<close>, which belong to the docarray and
  finetuner libraries and are not among the sources. A document holds the content of one
  modality and, once encoded, an embedding vector; an artifact is a bundle of named
  sub-models; \<^verbatim>\<open>get_model\<close> loads the sub-model named by \<^verbatim>\<open>select_model\<close>; \<^verbatim>\<open>encode\<close>
  stores in every document of the array the vector the model computes for it; and
  \<^verbatim>\<open>embeddings\<close> stacks the vectors of the documents into one array, whose shape is the
  number of documents and the length of the vectors. The scalars \<open>'a\<close> of the vectors are
  left open.
\<close>

record 'a document =
  doc_text :: string
  uri :: string
  embedding :: "'a list option"

record 'a encoder =
  output_dim :: nat
  forward :: "'a document \<Rightarrow> 'a list"

text \<open>An \<open>n\<close>-dimensional encoder computes vectors of length \<open>n\<close>.\<close>

definition dimensional :: "'a encoder \<Rightarrow> nat \<Rightarrow> bool" where
  "dimensional m n = (output_dim m = n \<and> (\<forall>d. length (forward m d) = n))"

type_synonym 'a artifact = "(string \<times> 'a encoder) list"

definition get_model :: "'a artifact \<Rightarrow> string \<Rightarrow> 'a encoder option" where
  "get_model artifact select_model = map_of artifact select_model"

definition finetuner_encode :: "'a encoder \<Rightarrow> 'a document list \<Rightarrow> 'a document list" where
  "finetuner_encode m da = map (\<lambda>d. d\<lparr>embedding := Some (forward m d)\<rparr>) da"

definition embeddings :: "'a document list \<Rightarrow> 'a list list option" where
  "embeddings da = those (map embedding da)"

definition shape :: "'a list list option \<Rightarrow> (nat \<times> nat) option" where
  "shape e =
     (case e of
        None \<Rightarrow> None
      | Some [] \<Rightarrow> None
      | Some (v # vs) \<Rightarrow>
          if list_all (\<lambda>u. length u = length v) vs then Some (length (v # vs), length v)
          else None)"

subsection \<open>\<^verbatim>\<open>plot_matches\<close> of the multilingual CLIP notebook\<close>

text \<open>
  The function of the listing under "Before and after" in \<^verbatim>\<open>src/unnamed/part_000\<close>:
  \<^verbatim>\<open>
  def plot_matches(num_samples = 10):
      seen = set()
      for i, (pt_q, ft_q) in enumerate(zip(pt_query, ft_query)):
          if i >= num_samples: break
          if pt_q.text in seen:
              i = i - 1
              continue
          seen.add(pt_q.text)
          print(...pt_q.text...)
          pt_q.matches[:1].plot_image_sprites(fig_size=(3,3))
          ft_q.matches[:1].plot_image_sprites(fig_size=(3,3))
  \<close>
  A query is kept as its text and its matches; what the function shows for a query is the
  text it prints and the two one-element slices it plots.
\<close>

record 'm query =
  query_text :: string
  query_matches :: "'m list"

record 'm shown =
  shown_text :: string
  zero_shot :: "'m list"
  fine_tuned :: "'m list"

record 'm plot_state =
  counter :: "int option"  \<comment> \<open>the local variable \<^verbatim>\<open>i\<close>, unbound before the loop\<close>
  seen :: "string set"
  shown_results :: "'m shown list"

fun plot_loop :: "int \<Rightarrow> (nat \<times> 'm query \<times> 'm query) list \<Rightarrow> 'm plot_state \<Rightarrow> 'm plot_state" where
  "plot_loop num_samples [] st = st"
| "plot_loop num_samples ((idx, pt_q, ft_q) # rest) st =
     (let st1 = st\<lparr>counter := Some (int idx)\<rparr> in
      if int idx \<ge> num_samples then st1
      else if query_text pt_q \<in> seen st1
      then plot_loop num_samples rest (st1\<lparr>counter := Some (int idx - 1)\<rparr>)
      else plot_loop num_samples rest
             (st1\<lparr>seen := insert (query_text pt_q) (seen st1),
                  shown_results := shown_results st1 @
                    [\<lparr>shown_text = query_text pt_q,
                      zero_shot = take 1 (query_matches pt_q),
                      fine_tuned = take 1 (query_matches ft_q)\<rparr>]\<rparr>))"

definition plot_matches :: "int \<Rightarrow> 'm query list \<Rightarrow> 'm query list \<Rightarrow> 'm plot_state" where
  "plot_matches num_samples pt_query ft_query =
     plot_loop num_samples (enumerate 0 (zip pt_query ft_query))
       \<lparr>counter = None, seen = {}, shown_results = []\<rparr>"

text \<open>The same loop without the statement \<^verbatim>\<open>i = i - 1\<close>, for comparison.\<close>

fun plot_loop_without_decrement ::
  "int \<Rightarrow> (nat \<times> 'm query \<times> 'm query) list \<Rightarrow> 'm plot_state \<Rightarrow> 'm plot_state" where
  "plot_loop_without_decrement num_samples [] st = st"
| "plot_loop_without_decrement num_samples ((idx, pt_q, ft_q) # rest) st =
     (let st1 = st\<lparr>counter := Some (int idx)\<rparr> in
      if int idx \<ge> num_samples then st1
      else if query_text pt_q \<in> seen st1
      then plot_loop_without_decrement num_samples rest st1
      else plot_loop_without_decrement num_samples rest
             (st1\<lparr>seen := insert (query_text pt_q) (seen st1),
                  shown_results := shown_results st1 @
                    [\<lparr>shown_text = query_text pt_q,
                      zero_shot = take 1 (query_matches pt_q),
                      fine_tuned = take 1 (query_matches ft_q)\<rparr>]\<rparr>))"

definition plot_matches_without_decrement ::
  "int \<Rightarrow> 'm query list \<Rightarrow> 'm query list \<Rightarrow> 'm plot_state" where
  "plot_matches_without_decrement num_samples pt_query ft_query =
     plot_loop_without_decrement num_samples (enumerate 0 (zip pt_query ft_query))
       \<lparr>counter = None, seen = {}, shown_results = []\<rparr>"

text \<open>
  The invariant of the loop: the texts shown so far are pairwise different and all in
  \<^verbatim>\<open>seen\<close>.
\<close>

definition shown_once :: "'m plot_state \<Rightarrow> bool" where
  "shown_once st = (distinct (map shown_text (shown_results st))
     \<and> set (map shown_text (shown_results st)) \<subseteq> seen st)"

text \<open>The names a statement can bind.\<close>

fun simple_targets :: "simple \<Rightarrow> string list" where
  "simple_targets (Import targets) = targets"
| "simple_targets (Exec targets cs reads) = targets"
| "simple_targets _ = []"

fun stmt_targets :: "stmt \<Rightarrow> string list" where
  "stmt_targets (Do s) = simple_targets s"
| "stmt_targets (For target cs reads body) = target # concat (map simple_targets body)"

definition targets :: "notebook \<Rightarrow> string list" where
  "targets nb = concat (map stmt_targets (concat nb))"

section \<open>Theorems\<close>

subsection \<open>Run status\<close>

lemma lifecycle_terminal: "terminal s \<Longrightarrow> lifecycle s h = (h = [])"
  by (cases h) (auto simp: terminal_def)

lemma lifecycle_STARTED: "lifecycle STARTED h = (h = [] \<or> h = [FINISHED] \<or> h = [FAILED])"
proof (cases h)
  case Nil
  then show ?thesis by simp
next
  case (Cons t ts)
  then show ?thesis
    using lifecycle_terminal [of t ts] by (auto simp: terminal_def)
qed

text \<open>
  C1. A run is created in status CREATED; the only change out of CREATED is to STARTED,
  the only changes out of STARTED are to FINISHED or to FAILED, and FINISHED and FAILED
  are terminal. Hence the status changes of a run, from its creation on, are exactly the
  prefixes of CREATED, STARTED, FINISHED and of CREATED, STARTED, FAILED.
\<close>

theorem run_status_lifecycle:
  "initial_status = CREATED
   \<and> set (next_statuses CREATED) = {STARTED}
   \<and> set (next_statuses STARTED) = {FINISHED, FAILED}
   \<and> next_statuses FINISHED = [] \<and> next_statuses FAILED = []
   \<and> lifecycle initial_status h =
       (h = [] \<or> h = [STARTED] \<or> h = [STARTED, FINISHED] \<or> h = [STARTED, FAILED])"
proof -
  have "lifecycle CREATED h =
      (h = [] \<or> h = [STARTED] \<or> h = [STARTED, FINISHED] \<or> h = [STARTED, FAILED])"
  proof (cases h)
    case Nil
    then show ?thesis by simp
  next
    case (Cons t ts)
    then show ?thesis
      using lifecycle_STARTED [of ts] by auto
  qed
  then show ?thesis
    by (simp add: initial_status_def)
qed

subsection \<open>Workflows\<close>

lemma workflow_conclusion_failure:
  "(workflow_conclusion cs = C_failure) = (C_failure \<in> set cs)"
  by (auto simp: workflow_conclusion_def conclusions_by_rank_def split: list.splits if_splits)

lemma conclusion_name_failure: "gh_equal (conclusion_name c) ''failure'' = (c = C_failure)"
  by (cases c) (simp_all add: gh_equal_def lower_def)

lemma gate_steps_failed:
  "exec_steps w jn known Map.empty False
     [Workflow_conclusion_action,
      Run ''Check Failure'' (If_env_equals ''WORKFLOW_CONCLUSION'' ''failure'') (Exit 1),
      Run ''Success'' If_success (Echo ''All Done'')]
   = (\<not> succeeds w jn ''technote-space/workflow-conclusion-action@v2'' \<or> C_failure \<in> set known)"
  by (simp add: conclusion_name_failure workflow_conclusion_failure)

lemma job_names:
  "job_name check_codestyle = ''check-codestyle''" "job_name run_tests = ''run-tests''"
  "job_name success_all_test = ''success-all-test''"
  "job_name style_flake = ''style-flake''" "job_name style_black = ''style-black''"
  "job_name style_isort = ''style-isort''" "job_name prep_testbed = ''prep-testbed''"
  "job_name test_core = ''test-core''" "job_name test_cuda = ''test-cuda''"
  "job_name get_coverage = ''get-coverage''" "job_name success_tests = ''success-tests''"
  by (simp_all add: check_codestyle_def run_tests_def success_all_test_def style_flake_def
      style_black_def style_isort_def prep_testbed_def test_core_def test_cuda_def
      get_coverage_def success_tests_def)

lemma job_needs:
  "needs check_codestyle = []" "needs run_tests = []"
  "needs success_all_test = [''run-tests'']"
  "needs style_flake = []" "needs style_black = []" "needs style_isort = []"
  "needs prep_testbed = [''style-flake'', ''style-black'', ''style-isort'']"
  "needs test_core = [''prep-testbed'']" "needs test_cuda = [''prep-testbed'']"
  "needs get_coverage = [''prep-testbed'', ''test-core'', ''test-cuda'']"
  "needs success_tests = [''get-coverage'', ''test-core'', ''test-cuda'']"
  by (simp_all add: check_codestyle_def run_tests_def success_all_test_def style_flake_def
      style_black_def style_isort_def prep_testbed_def test_core_def test_cuda_def
      get_coverage_def success_tests_def)

lemma run_job_fields:
  "ran (run_job w rs j) = job_name j" "waited_for (run_job w rs j) = waits_for rs j"
  by (simp_all add: run_job_def)

lemma run_jobs_snoc:
  "run_jobs w rs (js @ [j]) = run_jobs w rs js @ [run_job w (run_jobs w rs js) j]"
  by (induction js arbitrary: rs) simp_all

lemma ran_run_jobs: "map ran (run_jobs w rs js) = map ran rs @ map job_name js"
  by (induction js arbitrary: rs) (simp_all add: run_job_fields)

lemma find_append:
  "find P (xs @ ys) = (case find P xs of None \<Rightarrow> find P ys | Some x \<Rightarrow> Some x)"
  by (induction xs) simp_all

lemma gate_run:
  assumes "if_always g"
    and "steps g = [Workflow_conclusion_action,
      Run ''Check Failure'' (If_env_equals ''WORKFLOW_CONCLUSION'' ''failure'') (Exit 1),
      Run ''Success'' If_success (Echo ''All Done'')]"
    and "job_name g \<notin> set (map job_name js)"
  shows "conclusion_of (run_jobs w [] (js @ [g])) (job_name g) =
    Some (job_end w (job_name g)
      (if succeeds w (job_name g) ''technote-space/workflow-conclusion-action@v2''
          \<and> C_failure \<notin> set (map concluded (complete_for w (run_jobs w [] js) g))
       then C_success else C_failure))"
proof -
  let ?P = "run_jobs w [] js"
  have "job_name g \<notin> set (map ran ?P)"
    using assms(3) by (simp add: ran_run_jobs)
  then have "find (\<lambda>r. ran r = job_name g) ?P = None"
    by (force simp: find_None_iff)
  then have "run_of (?P @ [run_job w ?P g]) (job_name g) = Some (run_job w ?P g)"
    by (simp add: run_of_def find_append run_job_fields)
  moreover have "concluded (run_job w ?P g) =
      job_end w (job_name g)
        (if succeeds w (job_name g) ''technote-space/workflow-conclusion-action@v2''
            \<and> C_failure \<notin> set (map concluded (complete_for w ?P g))
         then C_success else C_failure)"
    using assms(1) gate_steps_failed [of w "job_name g" "map concluded (complete_for w ?P g)"]
    by (simp add: run_job_def job_starts_def job_result_def assms(2))
  ultimately show ?thesis
    by (simp add: conclusion_of_def run_jobs_snoc)
qed

lemma waited_for_run_of:
  "map_option waited_for (run_of rs n) = map_of (map (\<lambda>r. (ran r, waited_for r)) rs) n"
  by (induction rs) (simp_all add: run_of_def)

lemma waits_for_map_of:
  "waits_for rs j =
     remdups (concat (map (\<lambda>n. n # (case map_of (map (\<lambda>r. (ran r, waited_for r)) rs) n of
                                        Some ws \<Rightarrow> ws | None \<Rightarrow> [])) (needs j)))"
proof -
  have "(case run_of rs n of Some r \<Rightarrow> waited_for r | None \<Rightarrow> []) =
      (case map_of (map (\<lambda>r. (ran r, waited_for r)) rs) n of Some ws \<Rightarrow> ws | None \<Rightarrow> [])" for n
    unfolding waited_for_run_of [symmetric] by (cases "run_of rs n") simp_all
  then show ?thesis
    by (simp add: waits_for_def)
qed

lemma waited_for_run_jobs_snoc:
  assumes "map (\<lambda>r. (ran r, waited_for r)) (run_jobs w [] js) = ws"
  shows "map (\<lambda>r. (ran r, waited_for r)) (run_jobs w [] (js @ [j])) =
    ws @ [(job_name j,
           remdups (concat (map (\<lambda>n. n # (case map_of ws n of Some x \<Rightarrow> x | None \<Rightarrow> []))
                                (needs j))))]"
  unfolding run_jobs_snoc using assms by (simp add: run_job_fields waits_for_map_of)

lemma waits_for_success_all_test:
  "waits_for (run_jobs w [] [check_codestyle, run_tests]) success_all_test = [''run-tests'']"
  by (simp add: waits_for_def run_of_def run_job_fields job_names job_needs)

lemma waited_for_remote_ci:
  "map (\<lambda>r. (ran r, waited_for r)) (run_jobs w []
      [style_flake, style_black, style_isort, prep_testbed, test_core, test_cuda, get_coverage]) =
   [(''style-flake'', []), (''style-black'', []), (''style-isort'', []),
    (''prep-testbed'', [''style-flake'', ''style-black'', ''style-isort'']),
    (''test-core'', [''prep-testbed'', ''style-flake'', ''style-black'', ''style-isort'']),
    (''test-cuda'', [''prep-testbed'', ''style-flake'', ''style-black'', ''style-isort'']),
    (''get-coverage'', [''test-core'', ''test-cuda'', ''prep-testbed'', ''style-flake'',
       ''style-black'', ''style-isort''])]"
proof -
  let ?f = "\<lambda>r. (ran r, waited_for r)"
  have 0: "map ?f (run_jobs w [] []) = []" by simp
  have 1: "map ?f (run_jobs w [] [style_flake]) =
      [(''style-flake'', [])]"
    using waited_for_run_jobs_snoc [OF 0, of style_flake]
    by (simp add: job_names job_needs del: run_jobs.simps)
  have 2: "map ?f (run_jobs w [] [style_flake, style_black]) =
      [(''style-flake'', []),
       (''style-black'', [])]"
    using waited_for_run_jobs_snoc [OF 1, of style_black]
    by (simp add: job_names job_needs del: run_jobs.simps)
  have 3: "map ?f (run_jobs w [] [style_flake, style_black, style_isort]) =
      [(''style-flake'', []),
       (''style-black'', []),
       (''style-isort'', [])]"
    using waited_for_run_jobs_snoc [OF 2, of style_isort]
    by (simp add: job_names job_needs del: run_jobs.simps)
  have 4: "map ?f (run_jobs w [] [style_flake, style_black, style_isort, prep_testbed]) =
      [(''style-flake'', []),
       (''style-black'', []),
       (''style-isort'', []),
       (''prep-testbed'', [''style-flake'', ''style-black'', ''style-isort''])]"
    using waited_for_run_jobs_snoc [OF 3, of prep_testbed]
    by (simp add: job_names job_needs del: run_jobs.simps)
  have 5: "map ?f (run_jobs w [] [style_flake, style_black, style_isort, prep_testbed, test_core]) =
      [(''style-flake'', []),
       (''style-black'', []),
       (''style-isort'', []),
       (''prep-testbed'', [''style-flake'', ''style-black'', ''style-isort'']),
       (''test-core'', [''prep-testbed'', ''style-flake'', ''style-black'', ''style-isort''])]"
    using waited_for_run_jobs_snoc [OF 4, of test_core]
    by (simp add: job_names job_needs del: run_jobs.simps)
  have 6: "map ?f (run_jobs w [] [style_flake, style_black, style_isort, prep_testbed, test_core, test_cuda]) =
      [(''style-flake'', []),
       (''style-black'', []),
       (''style-isort'', []),
       (''prep-testbed'', [''style-flake'', ''style-black'', ''style-isort'']),
       (''test-core'', [''prep-testbed'', ''style-flake'', ''style-black'', ''style-isort'']),
       (''test-cuda'', [''prep-testbed'', ''style-flake'', ''style-black'', ''style-isort''])]"
    using waited_for_run_jobs_snoc [OF 5, of test_cuda]
    by (simp add: job_names job_needs del: run_jobs.simps)
  have 7: "map ?f (run_jobs w [] [style_flake, style_black, style_isort, prep_testbed, test_core, test_cuda, get_coverage]) =
      [(''style-flake'', []),
       (''style-black'', []),
       (''style-isort'', []),
       (''prep-testbed'', [''style-flake'', ''style-black'', ''style-isort'']),
       (''test-core'', [''prep-testbed'', ''style-flake'', ''style-black'', ''style-isort'']),
       (''test-cuda'', [''prep-testbed'', ''style-flake'', ''style-black'', ''style-isort'']),
       (''get-coverage'', [''test-core'', ''test-cuda'', ''prep-testbed'', ''style-flake'',
       ''style-black'', ''style-isort''])]"
    using waited_for_run_jobs_snoc [OF 6, of get_coverage]
    by (simp add: job_names job_needs del: run_jobs.simps)
  show ?thesis by (rule 7)
qed

lemma complete_for_success_tests:
  "complete_for w (run_jobs w []
      [style_flake, style_black, style_isort, prep_testbed, test_core, test_cuda, get_coverage])
      success_tests =
   run_jobs w []
      [style_flake, style_black, style_isort, prep_testbed, test_core, test_cuda, get_coverage]"
proof -
  let ?P = "run_jobs w []
      [style_flake, style_black, style_isort, prep_testbed, test_core, test_cuda, get_coverage]"
  have w: "set (waits_for ?P success_tests) =
      {''get-coverage'', ''test-core'', ''test-cuda'', ''prep-testbed'', ''style-flake'',
       ''style-black'', ''style-isort''}"
    unfolding waits_for_map_of waited_for_remote_ci by (simp add: job_needs)
  have "ran ` set ?P = set (map ran ?P)" by simp
  also have "\<dots> = set (waits_for ?P success_tests)"
    unfolding ran_run_jobs w by (auto simp: job_names)
  finally have "\<And>r. r \<in> set ?P \<Longrightarrow> ran r \<in> set (waits_for ?P success_tests)"
    by blast
  then show ?thesis
    by (simp add: complete_for_def)
qed

lemma needs_come_first:
  "needs_listed_before [] (jobs ci) \<and> needs_listed_before [] (jobs remote_ci)"
  by (simp add: ci_def remote_ci_def job_names job_needs)

text \<open>
  C2, amended. In both workflows the final gate job (\<open>success_all_test\<close> in ci.yml,
  \<open>success_tests\<close> in remote-ci.yml) starts whatever the results of the jobs it needs.
  Unless GitHub cuts the gate itself short, it fails if and only if its
  workflow-conclusion step fails or some job of the run that is complete by then has
  failed, and succeeds otherwise. In remote-ci.yml these are all the other jobs, the three
  style jobs and \<^verbatim>\<open>prep-testbed\<close> included; in ci.yml they are \<^verbatim>\<open>run-tests\<close> and, when it
  is over in time, \<^verbatim>\<open>check-codestyle\<close>, which the gate does not need. Beside the skipping
  of a job whose needed jobs have not all succeeded, the gate is the only place where the
  result of one job acts on another: it is the only job with an \<^verbatim>\<open>if:\<close> and the only one
  that reads a conclusion, and only its steps have a condition.
\<close>

theorem gate_fails_iff_a_complete_job_failed:
  "job_starts success_all_test needed \<and> job_starts success_tests needed
   \<and> conclusion_of (run_workflow w ci) ''success-all-test'' =
       Some (job_end w ''success-all-test''
         (if succeeds w ''success-all-test'' ''technote-space/workflow-conclusion-action@v2''
             \<and> C_failure \<notin> set (map concluded
                   (filter (\<lambda>r. ran r = ''run-tests'' \<or> \<not> unfinished w (ran r))
                      (butlast (run_workflow w ci))))
          then C_success else C_failure))
   \<and> conclusion_of (run_workflow w remote_ci) ''success-tests'' =
       Some (job_end w ''success-tests''
         (if succeeds w ''success-tests'' ''technote-space/workflow-conclusion-action@v2''
             \<and> C_failure \<notin> set (map concluded (butlast (run_workflow w remote_ci)))
          then C_success else C_failure))
   \<and> map ran (butlast (run_workflow w ci)) = [''check-codestyle'', ''run-tests'']
   \<and> map ran (butlast (run_workflow w remote_ci)) =
       [''style-flake'', ''style-black'', ''style-isort'', ''prep-testbed'', ''test-core'',
        ''test-cuda'', ''get-coverage'']
   \<and> map job_name (filter if_always (jobs ci)) = [''success-all-test'']
   \<and> map job_name (filter if_always (jobs remote_ci)) = [''success-tests'']
   \<and> map job_name (filter (\<lambda>j. list_ex (\<lambda>s. s = Workflow_conclusion_action
                                           \<or> step_condition s \<noteq> If_implicit) (steps j))
         (jobs ci @ jobs remote_ci)) = [''success-all-test'', ''success-tests'']"
proof -
  have starts: "job_starts success_all_test needed \<and> job_starts success_tests needed"
    by (simp add: job_starts_def success_all_test_def success_tests_def)
  have ci: "run_workflow w ci = run_jobs w [] ([check_codestyle, run_tests] @ [success_all_test])"
    by (simp add: run_workflow_def ci_def)
  have remote: "run_workflow w remote_ci = run_jobs w []
      ([style_flake, style_black, style_isort, prep_testbed, test_core, test_cuda, get_coverage]
       @ [success_tests])"
    by (simp add: run_workflow_def remote_ci_def)
  have g1: "conclusion_of (run_workflow w ci) ''success-all-test'' =
       Some (job_end w ''success-all-test''
         (if succeeds w ''success-all-test'' ''technote-space/workflow-conclusion-action@v2''
             \<and> C_failure \<notin> set (map concluded
                   (filter (\<lambda>r. ran r = ''run-tests'' \<or> \<not> unfinished w (ran r))
                      (butlast (run_workflow w ci))))
          then C_success else C_failure))"
    unfolding ci run_jobs_snoc butlast_snoc
    using gate_run [of success_all_test "[check_codestyle, run_tests]" w]
    unfolding run_jobs_snoc complete_for_def waits_for_success_all_test
    by (simp add: job_names del: run_jobs.simps) (simp add: success_all_test_def)
  have g2: "conclusion_of (run_workflow w remote_ci) ''success-tests'' =
       Some (job_end w ''success-tests''
         (if succeeds w ''success-tests'' ''technote-space/workflow-conclusion-action@v2''
             \<and> C_failure \<notin> set (map concluded (butlast (run_workflow w remote_ci)))
          then C_success else C_failure))"
    unfolding remote run_jobs_snoc butlast_snoc
    using gate_run [of success_tests
        "[style_flake, style_black, style_isort, prep_testbed, test_core, test_cuda, get_coverage]" w]
    unfolding run_jobs_snoc complete_for_success_tests
    by (simp add: job_names del: run_jobs.simps) (simp add: success_tests_def)
  have n1: "map ran (butlast (run_workflow w ci)) = [''check-codestyle'', ''run-tests'']"
    unfolding ci run_jobs_snoc butlast_snoc ran_run_jobs by (simp add: job_names)
  have n2: "map ran (butlast (run_workflow w remote_ci)) =
       [''style-flake'', ''style-black'', ''style-isort'', ''prep-testbed'', ''test-core'',
        ''test-cuda'', ''get-coverage'']"
    unfolding remote run_jobs_snoc butlast_snoc ran_run_jobs by (simp add: job_names)
  have s1: "map job_name (filter if_always (jobs ci)) = [''success-all-test'']"
    by code_simp
  have s2: "map job_name (filter if_always (jobs remote_ci)) = [''success-tests'']"
    by code_simp
  have s3: "map job_name (filter (\<lambda>j. list_ex (\<lambda>s. s = Workflow_conclusion_action
                                           \<or> step_condition s \<noteq> If_implicit) (steps j))
         (jobs ci @ jobs remote_ci)) = [''success-all-test'', ''success-tests'']"
    by code_simp
  show ?thesis
    using starts g1 g2 n1 n2 s1 s2 s3 by (simp only: simp_thms)
qed

text \<open>
  C2, as stated, fails: the gate also fails when no job it needs has failed. When only
  \<^verbatim>\<open>Lint with flake8\<close> of \<^verbatim>\<open>style-flake\<close> fails, \<^verbatim>\<open>prep-testbed\<close> and with it the test and
  coverage jobs are skipped, and \<^verbatim>\<open>success-tests\<close> fails. When only the lint step of
  \<^verbatim>\<open>check-codestyle\<close> fails, \<^verbatim>\<open>run-tests\<close>, the one job \<^verbatim>\<open>success-all-test\<close> needs,
  succeeds, and \<^verbatim>\<open>success-all-test\<close> fails.
\<close>

theorem gate_fails_though_no_needed_job_failed:
  "map (\<lambda>r. (ran r, concluded r)) (run_workflow flake8_fails remote_ci) =
     [(''style-flake'', C_failure), (''style-black'', C_success), (''style-isort'', C_success),
      (''prep-testbed'', C_skipped), (''test-core'', C_skipped), (''test-cuda'', C_skipped),
      (''get-coverage'', C_skipped), (''success-tests'', C_failure)]
   \<and> needs success_tests = [''get-coverage'', ''test-core'', ''test-cuda'']
   \<and> map (\<lambda>r. (ran r, concluded r)) (run_workflow codestyle_fails ci) =
     [(''check-codestyle'', C_failure), (''run-tests'', C_success),
      (''success-all-test'', C_failure)]
   \<and> needs success_all_test = [''run-tests'']"
  by code_simp

lemma external_checkouts_remote_ci:
  "map (\<lambda>j. (job_name j, external_checkouts j)) (jobs remote_ci) =
     [(''style-flake'', [(''jina-ai/finetuner-core'', Client_payload_branch)]),
      (''style-black'', [(''jina-ai/finetuner-core'', Client_payload_branch)]),
      (''style-isort'', [(''jina-ai/finetuner-core'', Client_payload_branch)]),
      (''prep-testbed'', [(''jina-ai/finetuner-core'', Client_payload_branch)]),
      (''test-core'', [(''jina-ai/finetuner-core'', Client_payload_branch)]),
      (''test-cuda'', [(''jina-ai/finetuner-core'', Client_payload_branch)]),
      (''get-coverage'', [(''jina-ai/finetuner-core'', Client_payload_branch)]),
      (''success-tests'', [])]"
  by (simp add: remote_ci_def external_checkouts_def List.map_filter_simps finetuner_core_def
      style_flake_def style_black_def style_isort_def prep_testbed_def test_core_def
      test_cuda_def get_coverage_def success_tests_def)

text \<open>
  C5. ci.yml is triggered exactly by push events, remote-ci.yml exactly by
  \<^verbatim>\<open>repository_dispatch\<close> events of type \<^verbatim>\<open>triggered_from_core\<close>. On such an event with
  \<^verbatim>\<open>client_payload.branch = b\<close>, every job of remote-ci.yml except the gate checks out one
  other repository, jina-ai/finetuner-core, at \<open>b\<close>; the gate checks out none.
\<close>

theorem workflow_triggers_and_checkouts:
  "workflow_triggered ci ev = (ev = Push)
   \<and> workflow_triggered remote_ci ev = (\<exists>b. ev = Repository_dispatch ''triggered_from_core'' b)
   \<and> map (\<lambda>j. (job_name j, checked_out (Repository_dispatch ''triggered_from_core'' b) j))
         (jobs remote_ci) =
       [(''style-flake'', [(''jina-ai/finetuner-core'', b)]),
        (''style-black'', [(''jina-ai/finetuner-core'', b)]),
        (''style-isort'', [(''jina-ai/finetuner-core'', b)]),
        (''prep-testbed'', [(''jina-ai/finetuner-core'', b)]),
        (''test-core'', [(''jina-ai/finetuner-core'', b)]),
        (''test-cuda'', [(''jina-ai/finetuner-core'', b)]),
        (''get-coverage'', [(''jina-ai/finetuner-core'', b)]),
        (''success-tests'', [])]"
proof -
  have t1: "workflow_triggered ci ev = (ev = Push)"
    by (cases ev) (simp_all add: workflow_triggered_def ci_def)
  have t2: "workflow_triggered remote_ci ev =
      (\<exists>b. ev = Repository_dispatch ''triggered_from_core'' b)"
    by (cases ev) (auto simp: workflow_triggered_def remote_ci_def)
  have "map (\<lambda>j. (job_name j, checked_out (Repository_dispatch ''triggered_from_core'' b) j))
         (jobs remote_ci) =
       map (\<lambda>(n, cs). (n, map (\<lambda>(repo, r).
              (repo, eval_ref (Repository_dispatch ''triggered_from_core'' b) r)) cs))
         (map (\<lambda>j. (job_name j, external_checkouts j)) (jobs remote_ci))"
    by (simp add: checked_out_def)
  then show ?thesis
    unfolding external_checkouts_remote_ci using t1 t2 by simp
qed

subsection \<open>Test matrices\<close>

text \<open>
  Names of plain characters, one per line, pass through \<^verbatim>\<open>xargs\<close> and \<^verbatim>\<open>sort\<close> as they
  are.
\<close>

lemma lines_from_line:
  "newline \<notin> set l \<Longrightarrow> lines_from line (l @ newline # rest) = (line @ l) # lines_from [] rest"
  by (induction l arbitrary: line) auto

lemma lines_of_text_of:
  "list_all (\<lambda>l. newline \<notin> set l) ls \<Longrightarrow> lines_of (text_of ls) = ls"
proof -
  assume "list_all (\<lambda>l. newline \<notin> set l) ls"
  then have "lines_from [] (text_of ls) = ls"
    by (induction ls) (simp_all add: text_of_def lines_from_line)
  then show ?thesis by (simp add: lines_of_def)
qed

lemma plain_char_not_separator:
  "plain_char c \<Longrightarrow> c \<noteq> newline \<and> \<not> is_blank c \<and> \<not> is_space c"
  by (auto simp: plain_char_def is_space_def is_blank_def newline_def)

lemma xargs_read_word:
  "list_all plain_char w \<Longrightarrow>
   xargs_read Norm item (w @ newline # rest) = (item @ w) # xargs_read Space [] rest"
proof (induction w arbitrary: item)
  case Nil
  then show ?case by simp
next
  case (Cons c w)
  then have "plain_char c" and w: "list_all plain_char w" by simp_all
  then have "c \<noteq> newline" "\<not> is_blank c" "c \<noteq> CHR 0x5C" "c \<noteq> CHR 0x27" "c \<noteq> CHR 0x22"
    using plain_char_not_separator [of c] by (simp_all add: plain_char_def)
  then show ?case
    using Cons.IH [OF w, of "item @ [c]"] by simp
qed

lemma xargs_read_line:
  assumes "l \<noteq> []" and "list_all plain_char l"
  shows "xargs_read Space [] (l @ newline # rest) = l # xargs_read Space [] rest"
proof -
  from assms obtain c w where l: "l = c # w" by (cases l) auto
  with assms(2) have "\<not> is_space c" using plain_char_not_separator [of c] by simp
  then have "xargs_read Space [] (l @ newline # rest) = xargs_read Norm [] (l @ newline # rest)"
    by (simp add: l)
  then show ?thesis
    using xargs_read_word [OF assms(2), of "[]" rest] by simp
qed

lemma xargs_read_plain:
  "list_all (\<lambda>l. l \<noteq> [] \<and> list_all plain_char l) ls \<Longrightarrow>
   xargs_read Space [] (text_of ls) = ls"
  by (induction ls) (simp_all add: text_of_def xargs_read_line)


lemma plain_args_filter: "plain_args ls \<Longrightarrow> plain_args (filter P ls)"
  by (induction ls) (auto simp: plain_args_def)

lemma plain_args_selected: "plain_args ls \<Longrightarrow> plain_args (selected pat c ls)"
  by (simp add: selected_def plain_args_filter)

lemma plain_args_xargs_read: "plain_args ls \<Longrightarrow> xargs_read Space [] (text_of ls) = ls"
  by (rule xargs_read_plain) (simp add: plain_args_def list_all_iff)

lemma plain_args_no_option: "plain_args ls \<Longrightarrow> \<not> list_ex is_option ls"
  by (auto simp: plain_args_def list_all_iff list_ex_iff)

lemma plain_args_found:
  assumes "plain_paths c"
  shows "plain_args (found ''tests'' pat c)"
proof -
  have t: "list_all plain_char ''tests/''" and t': "list_all plain_char ''tests''"
    by (simp_all add: plain_char_def is_space_def)
  have "plain_args (''tests'' # map (\<lambda>p. ''tests/'' @ p) (below_tests c))"
    using assms t t' by (auto simp: plain_args_def plain_paths_def list_all_iff is_option_def)
  then have "plain_args (filter (\<lambda>p. glob pat (basename p))
      (''tests'' # map (\<lambda>p. ''tests/'' @ p) (below_tests c)))"
    by (rule plain_args_filter)
  then show ?thesis
    by (simp add: found_def)
qed

lemma xargs_grep_l_plain:
  "plain_args ls \<Longrightarrow> xargs (grep_l pat c) (text_of ls) = Some (text_of (selected pat c ls))"
  by (simp add: xargs_def plain_args_xargs_read grep_l_def plain_args_no_option)

lemma xargs_dirname_plain:
  "plain_args ls \<Longrightarrow> xargs dirname_all (text_of ls) = Some (text_of (map dirname ls))"
  by (simp add: xargs_def plain_args_xargs_read dirname_all_def plain_args_no_option)

lemma set_strip_slashes: "set (strip_slashes s) \<subseteq> set s"
  using set_dropWhileD [of _ "\<lambda>c. c = CHR ''/''" "rev s"] by (auto simp: strip_slashes_def)

lemma set_dirname: "set (dirname p) \<subseteq> set p \<union> {CHR ''/'', CHR ''.''}"
proof -
  have "set (strip_slashes (rev (dropWhile (\<lambda>c. c \<noteq> CHR ''/'') (rev (strip_slashes p))))) \<subseteq> set p"
    using set_strip_slashes [of "rev (dropWhile (\<lambda>c. c \<noteq> CHR ''/'') (rev (strip_slashes p)))"]
      set_dropWhileD [of _ "\<lambda>c. c \<noteq> CHR ''/''" "rev (strip_slashes p)"]
      set_strip_slashes [of p]
    by auto
  then show ?thesis
    by (auto simp: dirname_def Let_def)
qed

lemma plain_args_dirname_lines:
  assumes "plain_args ls"
  shows "lines_of (text_of (map dirname ls)) = map dirname ls"
proof (rule lines_of_text_of)
  have "newline \<notin> set (dirname l)" if "l \<in> set ls" for l
  proof -
    from assms that have "list_all plain_char l" by (simp add: plain_args_def list_all_iff)
    then have "newline \<notin> set l"
      using plain_char_not_separator by (auto simp: list_all_iff)
    then show ?thesis
      using set_dirname [of l] by (auto simp: newline_def)
  qed
  then show "list_all (\<lambda>l. newline \<notin> set l) (map dirname ls)"
    by (simp add: list_all_iff)
qed

lemma core_tests_matrix_plain:
  assumes "plain_paths c"
  shows "core_tests_matrix c =
    Some (remdups_adj (sort (map dirname
      (selected ''def test_'' c (found ''tests'' ''test_*.py'' c)))))"
proof -
  let ?found = "found ''tests'' ''test_*.py'' c"
  have f: "plain_args ?found" using assms by (rule plain_args_found)
  then have s: "plain_args (selected ''def test_'' c ?found)" by (rule plain_args_selected)
  show ?thesis
    unfolding core_tests_matrix_def find_name_def xargs_grep_l_plain [OF f]
    by (simp add: xargs_dirname_plain [OF s] sort_u_def plain_args_dirname_lines [OF s])
qed

lemma cuda_tests_matrix_plain:
  assumes "plain_paths c"
  shows "cuda_tests_matrix c =
    Some (remdups_adj (sort (map dirname
      (selected ''pytest.mark.gpu'' c
        (selected ''def test_'' c (found ''tests'' ''test_*.py'' c))))))"
proof -
  let ?found = "found ''tests'' ''test_*.py'' c"
  have f: "plain_args ?found" using assms by (rule plain_args_found)
  then have s: "plain_args (selected ''def test_'' c ?found)" by (rule plain_args_selected)
  then have g: "plain_args (selected ''pytest.mark.gpu'' c (selected ''def test_'' c ?found))"
    by (rule plain_args_selected)
  show ?thesis
    unfolding cuda_tests_matrix_def find_name_def xargs_grep_l_plain [OF f]
    by (simp add: xargs_grep_l_plain [OF s] xargs_dirname_plain [OF g] sort_u_def
        plain_args_dirname_lines [OF g])
qed

lemma distinct_remdups_adj_sorted:
  "sorted xs \<Longrightarrow> distinct (remdups_adj (xs :: 'a :: linorder list))"
  by (induction xs rule: remdups_adj.induct) auto

lemma matches_here_literal: "matches_here (map Exactly sub) s = (\<exists>v. s = sub @ v)"
proof (induction sub arbitrary: s)
  case Nil
  then show ?case by simp
next
  case (Cons a sub)
  then show ?case by (cases s) auto
qed

lemma matches_anywhere: "matches as s = (\<exists>u v. s = u @ v \<and> matches_here as v)"
proof (induction s)
  case Nil
  then show ?case by simp
next
  case (Cons c cs)
  show ?case
  proof
    assume "matches as (c # cs)"
    then consider "matches_here as (c # cs)" | "matches as cs" by auto
    then show "\<exists>u v. c # cs = u @ v \<and> matches_here as v"
    proof cases
      case 1
      then have "c # cs = [] @ (c # cs) \<and> matches_here as (c # cs)" by simp
      then show ?thesis by blast
    next
      case 2
      with Cons.IH obtain u v where "cs = u @ v" "matches_here as v" by blast
      then have "c # cs = (c # u) @ v \<and> matches_here as v" by simp
      then show ?thesis by blast
    qed
  next
    assume "\<exists>u v. c # cs = u @ v \<and> matches_here as v"
    then obtain u v where uv: "c # cs = u @ v" "matches_here as v" by blast
    show "matches as (c # cs)"
    proof (cases u)
      case Nil
      with uv have "v = c # cs" by simp
      with uv(2) show ?thesis by simp
    next
      case (Cons d u')
      with uv have "cs = u' @ v" by simp
      with uv(2) Cons.IH have "matches as cs" by blast
      then show ?thesis by simp
    qed
  qed
qed

lemma contains_iff: "contains s sub = (\<exists>u v. s = u @ sub @ v)"
  by (auto simp: contains_def matches_anywhere matches_here_literal)

lemma glob_star: "glob (CHR ''*'' # ps) s = (\<exists>m r. s = m @ r \<and> glob ps r)"
proof (induction s)
  case Nil
  then show ?case by simp
next
  case (Cons c cs)
  show ?case
  proof
    assume "glob (CHR ''*'' # ps) (c # cs)"
    then consider "glob ps (c # cs)" | "glob (CHR ''*'' # ps) cs" by auto
    then show "\<exists>m r. c # cs = m @ r \<and> glob ps r"
    proof cases
      case 1
      then have "c # cs = [] @ (c # cs) \<and> glob ps (c # cs)" by simp
      then show ?thesis by blast
    next
      case 2
      with Cons.IH obtain m r where "cs = m @ r" "glob ps r" by blast
      then have "c # cs = (c # m) @ r \<and> glob ps r" by simp
      then show ?thesis by blast
    qed
  next
    assume "\<exists>m r. c # cs = m @ r \<and> glob ps r"
    then obtain m r where mr: "c # cs = m @ r" "glob ps r" by blast
    show "glob (CHR ''*'' # ps) (c # cs)"
    proof (cases m)
      case Nil
      with mr have "r = c # cs" by simp
      with mr(2) show ?thesis by simp
    next
      case (Cons d m')
      with mr have "cs = m' @ r" by simp
      with mr(2) Cons.IH have "glob (CHR ''*'' # ps) cs" by blast
      then show ?thesis by simp
    qed
  qed
qed

lemma glob_char: "p \<noteq> CHR ''*'' \<Longrightarrow> glob (p # ps) s = (\<exists>cs. s = p # cs \<and> glob ps cs)"
  by (cases s) auto

lemma glob_nil: "glob [] s = (s = [])"
  by (cases s) auto

lemma glob_test_py: "glob ''test_*.py'' s = (\<exists>m. s = ''test_'' @ m @ ''.py'')"
  by (auto simp: glob_char glob_star glob_nil)

lemma glob_coverage: "glob ''.coverage*'' s = (\<exists>r. s = ''.coverage'' @ r)"
  by (auto simp: glob_char glob_star glob_nil)

text \<open>
  What \<^verbatim>\<open>find 'tests' -name 'test_*.py'\<close> prints: the names below \<^verbatim>\<open>tests\<close> whose last
  component has the form \<^verbatim>\<open>test_*.py\<close>.
\<close>

lemma found_test_py:
  "set (found ''tests'' ''test_*.py'' c) =
     {p \<in> (\<lambda>q. ''tests/'' @ q) ` set (below_tests c). \<exists>m. basename p = ''test_'' @ m @ ''.py''}"
proof -
  have "\<not> glob ''test_*.py'' (basename ''tests'')"
    by code_simp
  then show ?thesis
    unfolding found_def by (auto simp: glob_test_py)
qed

text \<open>A pattern matches its own text, read as a regular expression: a dot matches a dot.\<close>

lemma literal_matches_regex:
  "matches_here (map Exactly sub) s \<Longrightarrow> matches_here (regex sub) s"
proof (induction sub arbitrary: s)
  case Nil
  then show ?case by (simp add: regex_def)
next
  case (Cons a sub)
  then obtain cs where s: "s = a # cs" and rest: "matches_here (map Exactly sub) cs"
    by (cases s) auto
  from rest have r: "matches_here (regex sub) cs" by (rule Cons.IH)
  show ?case
  proof (cases "a = CHR ''.''")
    case True
    have "utf8_width (CHR ''.'' # cs) = 1" by (simp add: byte_def)
    with r True s show ?thesis
      by (simp add: regex_def newline_def)
  next
    case False
    with r s show ?thesis by (simp add: regex_def)
  qed
qed

lemma contains_matches_regex:
  assumes "contains s sub"
  shows "matches (regex sub) s"
proof -
  from assms obtain u v where "s = u @ v" "matches_here (map Exactly sub) v"
    by (auto simp: contains_def matches_anywhere)
  then have "s = u @ v \<and> matches_here (regex sub) v"
    by (simp add: literal_matches_regex)
  then show ?thesis
    unfolding matches_anywhere by blast
qed

lemma regex_def_test: "regex ''def test_'' = map Exactly ''def test_''"
  by (simp add: regex_def)

lemma selected_def_test:
  "set (selected ''def test_'' c args) =
     {a \<in> set args. \<exists>s. file_at c a = Some s \<and> contains s ''def test_''}"
  unfolding selected_def regex_def_test contains_def [symmetric]
  by (auto split: option.splits)

lemma selected_regex:
  "set (selected pat c args) =
     {a \<in> set args. \<exists>s. file_at c a = Some s \<and> matches (regex pat) s}"
  unfolding selected_def by (auto split: option.splits)

text \<open>
  For a checkout whose names below \<^verbatim>\<open>tests\<close> have no white space, quote or backslash,
  the core tests matrix is the sorted, duplicate-free list of the directories of the test
  files that contain \<^verbatim>\<open>def test_\<close>; the CUDA tests matrix is the same for the test files
  that moreover match the regular expression \<^verbatim>\<open>pytest.mark.gpu\<close>.
\<close>

lemma core_tests_matrix_exact:
  assumes "plain_paths c"
  shows "\<exists>m. core_tests_matrix c = Some m \<and> sorted m \<and> distinct m
    \<and> set m = dirname ` {p \<in> set (found ''tests'' ''test_*.py'' c).
                 \<exists>s. file_at c p = Some s \<and> contains s ''def test_''}"
  unfolding core_tests_matrix_plain [OF assms]
  by (simp add: selected_def_test distinct_remdups_adj_sorted)

lemma cuda_tests_matrix_regex:
  assumes "plain_paths c"
  shows "\<exists>m. cuda_tests_matrix c = Some m \<and> sorted m \<and> distinct m
    \<and> set m = dirname ` {p \<in> set (found ''tests'' ''test_*.py'' c).
                 \<exists>s. file_at c p = Some s \<and> contains s ''def test_''
                   \<and> matches (regex ''pytest.mark.gpu'') s}"
proof -
  have "set (selected ''pytest.mark.gpu'' c
          (selected ''def test_'' c (found ''tests'' ''test_*.py'' c))) =
      {p \<in> set (found ''tests'' ''test_*.py'' c).
         \<exists>s. file_at c p = Some s \<and> contains s ''def test_''
           \<and> matches (regex ''pytest.mark.gpu'') s}"
    unfolding selected_regex [of "''pytest.mark.gpu''"] selected_def_test by auto
  then show ?thesis
    unfolding cuda_tests_matrix_plain [OF assms]
    by (simp add: distinct_remdups_adj_sorted)
qed

text \<open>
  A test file that contains \<^verbatim>\<open>def test_\<close> and the text \<^verbatim>\<open>pytest.mark.gpu\<close> has its
  directory in the CUDA tests matrix: the regular expression matches its own text.
\<close>

lemma cuda_tests_matrix_includes_marked:
  assumes "plain_paths c" and "p \<in> set (found ''tests'' ''test_*.py'' c)"
    and "file_at c p = Some s"
    and "contains s ''def test_''" and "contains s ''pytest.mark.gpu''"
  shows "\<exists>m. cuda_tests_matrix c = Some m \<and> dirname p \<in> set m"
proof -
  have "matches (regex ''pytest.mark.gpu'') s"
    using assms(5) by (rule contains_matches_regex)
  with assms(2-4) have "p \<in> {p \<in> set (found ''tests'' ''test_*.py'' c).
      \<exists>s. file_at c p = Some s \<and> contains s ''def test_''
        \<and> matches (regex ''pytest.mark.gpu'') s}"
    by simp
  then show ?thesis
    using cuda_tests_matrix_regex [OF assms(1)] by blast
qed

text \<open>
  One matrix job per entry, each uploading its coverage file, and
  \<^verbatim>\<open>coverage combine -a .coverage*\<close> takes every uploaded file.
\<close>

lemma coverage_name_glob: "glob ''.coverage*'' (coverage_name kind p)"
  unfolding glob_coverage coverage_name_def by simp

lemma matrix_jobs_and_coverage:
  "map tests_path (test_core_jobs core) = core
   \<and> map tests_path (test_cuda_jobs cuda) = cuda
   \<and> uploaded (test_core_jobs core) = map (coverage_name ''core'') core
   \<and> uploaded (test_cuda_jobs cuda) = map (coverage_name ''cuda'') cuda
   \<and> combined (uploaded (test_core_jobs core) @ uploaded (test_cuda_jobs cuda)) =
       uploaded (test_core_jobs core) @ uploaded (test_cuda_jobs cuda)"
  by (simp add: test_core_jobs_def test_cuda_jobs_def uploaded_def combined_def comp_def
      coverage_name_glob)

text \<open>The two matrices of a small checkout.\<close>

lemma tests_matrix_example:
  "core_tests_matrix small_checkout = Some [''tests/integration/gpu'', ''tests/unit'']
   \<and> cuda_tests_matrix small_checkout = Some [''tests/integration/gpu'']"
  by code_simp

text \<open>
  Names with a blank are split by \<^verbatim>\<open>xargs\<close>: a test file in \<^verbatim>\<open>tests/my dir\<close> is not
  found by \<^verbatim>\<open>grep\<close>, and the core tests matrix is empty.
\<close>

lemma core_tests_matrix_blank:
  "core_tests_matrix blank_checkout = Some []"
  by code_simp

text \<open>
  C3. The CUDA tests matrix departs from the directories that hold a test file containing
  \<^verbatim>\<open>pytest.mark.gpu\<close>: the dots of the \<^verbatim>\<open>grep\<close> pattern match any character, so a
  test file that only mentions "pytest mark gpu" puts its directory into the matrix.
\<close>

theorem cuda_tests_matrix_dot_matches_any_character:
  "cuda_tests_matrix mention_checkout = Some [''tests/unit'']
   \<and> file_at mention_checkout ''tests/unit/test_cpu.py'' =
       Some ''def test_cpu(): pass  # pytest mark gpu: no''
   \<and> \<not> contains ''def test_cpu(): pass  # pytest mark gpu: no'' ''pytest.mark.gpu''"
  by code_simp




subsection \<open>Notebooks: the order of the API calls\<close>

lemmas shared_stmts =
  pip_install_def import_finetuner_def import_docarray_def login_def pull_def summary_def
  monitoring_def save_artifact_def encode_def

lemma calls_mclip:
  "calls mclip_notebook =
     [Login, Pull, Pull, Pull, Pull, Fit, Stream_logs, Save_artifact, Get_model, Get_model,
      Encode, Encode]"
  by (simp add: calls_def mclip_notebook_def shared_stmts)

lemma calls_clip:
  "calls clip_notebook =
     [Login, Pull, Pull, Pull, Pull, Fit, Stream_logs, Save_artifact, Get_model, Get_model,
      Encode, Encode]"
  by (simp add: calls_def clip_notebook_def shared_stmts)

lemma calls_pointnet:
  "calls pointnet_notebook =
     [Login, Pull, Pull, Pull, Fit, Stream_logs, Save_artifact, Get_model, Encode, Encode,
      Match, Build_model, Encode, Encode, Match]"
  by (simp add: calls_def pointnet_notebook_def shared_stmts)

lemma calls_bert:
  "calls bert_notebook =
     [Login, Pull, Pull, Pull, Fit, Stream_logs, Save_artifact, Get_model, Encode, Encode,
      Match]"
  by (simp add: calls_def bert_notebook_def shared_stmts)

lemma calls_resnet:
  "calls resnet_notebook =
     [Login, Pull, Pull, Pull, Fit, Stream_logs, Save_artifact, Get_model, Encode, Encode,
      Match]"
  by (simp add: calls_def resnet_notebook_def shared_stmts)

text \<open>
  C6, as stated, fails: the PointNet++ notebook calls build_model and encode after its
  first match.
\<close>

theorem pointnet_calls_out_of_order:
  "pointnet_notebook \<in> set notebooks \<and> \<not> in_order (calls pointnet_notebook)"
  by (simp add: notebooks_def in_order_def calls_pointnet)

text \<open>
  C6, amended. The code cells of every notebook call, in this order, login, pull, fit,
  stream_logs, save_artifact, get_model and encode. The two CLIP notebooks stop there, the
  BERT and ResNet50 notebooks end with match, and the PointNet++ notebook goes on after
  match with build_model, encode and match once more; the other four notebooks follow the
  order throughout.
\<close>

theorem notebook_call_sequences:
  "map (\<lambda>nb. remdups_adj (calls nb)) notebooks =
     [[Login, Pull, Fit, Stream_logs, Save_artifact, Get_model, Encode],
      [Login, Pull, Fit, Stream_logs, Save_artifact, Get_model, Encode],
      [Login, Pull, Fit, Stream_logs, Save_artifact, Get_model, Encode, Match,
       Build_model, Encode, Match],
      [Login, Pull, Fit, Stream_logs, Save_artifact, Get_model, Encode, Match],
      [Login, Pull, Fit, Stream_logs, Save_artifact, Get_model, Encode, Match]]
   \<and> list_all (\<lambda>nb. in_order (calls nb))
        [mclip_notebook, clip_notebook, bert_notebook, resnet_notebook]"
  by (simp add: notebooks_def in_order_def calls_mclip calls_clip calls_pointnet calls_bert
      calls_resnet)

subsection \<open>Notebooks: the names bound when the cells run\<close>

lemma loop_entry:
  assumes "''print'' \<in> set names"
  shows "exec_loop n ''entry'' [Exec [] [] [''print'', ''entry'']] names =
         Inr (if n = 0 then names else bind names [''entry''])"
  using assms
proof (induction n arbitrary: names)
  case 0
  then show ?case by simp
next
  case (Suc n)
  let ?names = "bind names [''entry'']"
  have p: "''print'' \<in> set ?names" and e: "''entry'' \<in> set ?names"
    using Suc.prems by (auto simp: bind_def)
  have "bind ?names [''entry''] = ?names"
    using e by (simp add: bind_def)
  moreover have "exec_body ?names [Exec [] [] [''print'', ''entry'']] = Inr ?names"
    using p e by (simp add: unbound_def bind_def)
  ultimately show ?case
    using Suc.IH [OF p] by simp
qed

lemma exec_cells_append:
  "c' = c + length xs \<Longrightarrow>
   exec_cells iters c names (xs @ ys) =
     (case exec_cells iters c names xs of
        Inl f \<Rightarrow> Inl f
      | Inr names' \<Rightarrow> exec_cells iters c' names' ys)"
  by (induction xs arbitrary: c names) (auto split: sum.splits)

lemma pointnet_split:
  "pointnet_notebook = take 5 pointnet_notebook @ [[monitoring]] @ drop 6 pointnet_notebook"
  by code_simp

lemma pointnet_before_monitoring:
  "exec_cells iters 0 builtins (take 5 pointnet_notebook) =
     Inr [''print'', ''finetuner'', ''DocumentArray'', ''Document'', ''train_data'',
          ''query_data'', ''index_data'', ''EvaluationCallback'', ''run'']"
  by code_simp

lemma pointnet_monitoring:
  "exec_cells iters 5 [''print'', ''finetuner'', ''DocumentArray'', ''Document'', ''train_data'',
          ''query_data'', ''index_data'', ''EvaluationCallback'', ''run''] [[monitoring]] =
     Inr ([''print'', ''finetuner'', ''DocumentArray'', ''Document'', ''train_data'',
          ''query_data'', ''index_data'', ''EvaluationCallback'', ''run'']
          @ (if iters = 0 then [] else [''entry'']))"
  by (simp add: monitoring_def unbound_def loop_entry bind_def)

lemma pointnet_after_monitoring_without_entry:
  "exec_cells iters 6
     [''print'', ''finetuner'', ''DocumentArray'', ''Document'', ''train_data'',
      ''query_data'', ''index_data'', ''EvaluationCallback'', ''run'']
     (drop 6 pointnet_notebook) =
     Inl \<lparr>cell_no = 7, stmt_no = 3, error = NameError ''query'',
          bound_names = [''print'', ''finetuner'', ''DocumentArray'', ''Document'',
            ''train_data'', ''query_data'', ''index_data'', ''EvaluationCallback'', ''run'',
            ''artifact'', ''model'']\<rparr>"
  by code_simp

lemma pointnet_after_monitoring_with_entry:
  "exec_cells iters 6
     [''print'', ''finetuner'', ''DocumentArray'', ''Document'', ''train_data'',
      ''query_data'', ''index_data'', ''EvaluationCallback'', ''run'', ''entry'']
     (drop 6 pointnet_notebook) =
     Inl \<lparr>cell_no = 7, stmt_no = 3, error = NameError ''query'',
          bound_names = [''print'', ''finetuner'', ''DocumentArray'', ''Document'',
            ''train_data'', ''query_data'', ''index_data'', ''EvaluationCallback'', ''run'',
            ''entry'', ''artifact'', ''model'']\<rparr>"
  by code_simp

text \<open>
  Running statements binds no names but their targets, and no statement of the PointNet++
  notebook has the target \<^verbatim>\<open>query\<close>.
\<close>

lemma set_bind: "set (bind names ts) = set names \<union> set ts"
proof -
  have "set (foldl (\<lambda>ns t. if t \<in> set ns then ns else ns @ [t]) names ts) = set names \<union> set ts"
    by (induction ts arbitrary: names) auto
  then show ?thesis by (simp add: bind_def)
qed

lemma exec_simple_names:
  "exec_simple names s = Inr names' \<Longrightarrow> set names' = set names \<union> set (simple_targets s)"
  by (cases s) (auto simp: set_bind split: option.splits)

lemma exec_body_names:
  "exec_body names ss = Inr names' \<Longrightarrow>
   set names' = set names \<union> set (concat (map simple_targets ss))"
proof (induction ss arbitrary: names)
  case Nil
  then show ?case by simp
next
  case (Cons s ss)
  then obtain names1 where 1: "exec_simple names s = Inr names1"
    and 2: "exec_body names1 ss = Inr names'"
    by (auto split: sum.splits)
  show ?case
    using exec_simple_names [OF 1] Cons.IH [OF 2] by auto
qed

lemma exec_loop_names:
  "exec_loop n target body names = Inr names' \<Longrightarrow>
   set names' \<subseteq> set names \<union> set (target # concat (map simple_targets body))"
proof (induction n arbitrary: names)
  case 0
  then show ?case by auto
next
  case (Suc n)
  then obtain names1 where 1: "exec_body (bind names [target]) body = Inr names1"
    and 2: "exec_loop n target body names1 = Inr names'"
    by (auto split: sum.splits)
  show ?case
    using exec_body_names [OF 1] Suc.IH [OF 2] by (auto simp: set_bind)
qed

lemma exec_stmt_names:
  "exec_stmt iters names s = Inr names' \<Longrightarrow> set names' \<subseteq> set names \<union> set (stmt_targets s)"
proof (cases s)
  case (Do x)
  assume "exec_stmt iters names s = Inr names'"
  with Do show ?thesis
    using exec_simple_names [of names x names'] by simp
next
  case (For target cs reads body)
  assume "exec_stmt iters names s = Inr names'"
  with For have "exec_loop iters target body names = Inr names'"
    by (simp split: option.splits)
  with For show ?thesis
    using exec_loop_names [of iters target body names names'] by simp
qed

lemma exec_cell_names:
  "exec_cell iters c k names ss = Inr names' \<Longrightarrow>
   set names' \<subseteq> set names \<union> set (concat (map stmt_targets ss))"
proof (induction ss arbitrary: k names)
  case Nil
  then show ?case by simp
next
  case (Cons s ss)
  then obtain names1 where 1: "exec_stmt iters names s = Inr names1"
    and 2: "exec_cell iters c (Suc k) names1 ss = Inr names'"
    by (auto split: sum.splits)
  show ?case
    using exec_stmt_names [OF 1] Cons.IH [OF 2] by auto
qed

lemma exec_cells_names:
  "exec_cells iters c names nb = Inr names' \<Longrightarrow> set names' \<subseteq> set names \<union> set (targets nb)"
proof (induction nb arbitrary: c names)
  case Nil
  then show ?case by simp
next
  case (Cons x xs)
  then obtain names1 where 1: "exec_cell iters c 0 names x = Inr names1"
    and 2: "exec_cells iters (Suc c) names1 xs = Inr names'"
    by (auto split: sum.splits)
  show ?case
    using exec_cell_names [OF 1] Cons.IH [OF 2] by (auto simp: targets_def)
qed

lemma pointnet_never_binds_query:
  "''query'' \<notin> set builtins \<union> set (targets pointnet_notebook)"
  by code_simp

lemma unbound_assert_raises:
  "''query'' \<notin> set names \<Longrightarrow>
   exec_stmt iters names (Do (Assert [''query''])) = Inl (NameError ''query'')"
  by (simp add: unbound_def)

text \<open>
  C8, amended. Running the code cells of the PointNet++ notebook in order stops with
  \<^verbatim>\<open>NameError\<close> for \<^verbatim>\<open>query\<close> at the assertion, the fourth statement of the inference cell
  (code cell 7, statement 3, counted from 0), however many log entries the monitoring loop
  receives: no earlier statement binds \<^verbatim>\<open>query\<close>. The names bound at that point are the
  builtins, \<^verbatim>\<open>finetuner\<close>, \<^verbatim>\<open>DocumentArray\<close>, \<^verbatim>\<open>Document\<close>, \<^verbatim>\<open>train_data\<close>, \<^verbatim>\<open>query_data\<close>,
  \<^verbatim>\<open>index_data\<close>, \<^verbatim>\<open>EvaluationCallback\<close>, \<^verbatim>\<open>run\<close>, \<^verbatim>\<open>entry\<close> (once the loop has received
  an entry), \<^verbatim>\<open>artifact\<close> and \<^verbatim>\<open>model\<close>.
\<close>

theorem pointnet_assert_raises_NameError:
  "pointnet_notebook ! 7 ! 3 = Do (Assert [''query''])
   \<and> ''query'' \<notin> set builtins \<union> set (targets pointnet_notebook)
   \<and> run_all iters pointnet_notebook =
       Inl \<lparr>cell_no = 7, stmt_no = 3, error = NameError ''query'',
            bound_names = [''print'', ''finetuner'', ''DocumentArray'', ''Document'',
              ''train_data'', ''query_data'', ''index_data'', ''EvaluationCallback'', ''run'']
              @ (if iters = 0 then [] else [''entry'']) @ [''artifact'', ''model'']\<rparr>"
proof -
  let ?pre = "take 5 pointnet_notebook" and ?post = "drop 6 pointnet_notebook"
  let ?names = "[''print'', ''finetuner'', ''DocumentArray'', ''Document'', ''train_data'',
    ''query_data'', ''index_data'', ''EvaluationCallback'', ''run'']"
  let ?entry = "if iters = 0 then [] else [''entry'']"
  let ?failure = "\<lparr>cell_no = 7, stmt_no = 3, error = NameError ''query'',
    bound_names = ?names @ ?entry @ [''artifact'', ''model'']\<rparr>"
  have a: "pointnet_notebook ! 7 ! 3 = Do (Assert [''query''])"
    by code_simp
  have len: "5 = 0 + length ?pre"
    by code_simp
  have post: "exec_cells iters 6 (?names @ ?entry) ?post = Inl ?failure"
    using pointnet_after_monitoring_without_entry [of iters]
      pointnet_after_monitoring_with_entry [of iters]
    by (cases "iters = 0") simp_all
  have "exec_cells iters 5 ?names ([[monitoring]] @ ?post) =
      (case exec_cells iters 5 ?names [[monitoring]] of
         Inl f \<Rightarrow> Inl f
       | Inr names' \<Rightarrow> exec_cells iters 6 names' ?post)"
    by (rule exec_cells_append) simp
  also have "\<dots> = Inl ?failure"
    by (simp only: pointnet_monitoring sum.case post)
  finally have mon: "exec_cells iters 5 ?names ([[monitoring]] @ ?post) = Inl ?failure" .
  have "run_all iters pointnet_notebook =
      exec_cells iters 0 builtins (?pre @ [[monitoring]] @ ?post)"
    unfolding run_all_def using pointnet_split by simp
  also have "\<dots> =
      (case exec_cells iters 0 builtins ?pre of
         Inl f \<Rightarrow> Inl f
       | Inr names' \<Rightarrow> exec_cells iters 5 names' ([[monitoring]] @ ?post))"
    by (rule exec_cells_append [OF len])
  also have "\<dots> = Inl ?failure"
    by (simp only: pointnet_before_monitoring sum.case mon)
  finally show ?thesis
    using a pointnet_never_binds_query by simp
qed

lemma not_equal_by_member: "x \<in> A \<Longrightarrow> x \<notin> B \<Longrightarrow> A \<noteq> B"
  by blast

text \<open>
  C8, as stated, fails in its list of the bound names: when the assertion of the
  PointNet++ notebook is reached, \<^verbatim>\<open>run\<close> (with \<^verbatim>\<open>artifact\<close>, \<^verbatim>\<open>finetuner\<close> and others) is
  bound as well, not only \<^verbatim>\<open>query_data\<close>, \<^verbatim>\<open>index_data\<close>, \<^verbatim>\<open>train_data\<close> and \<^verbatim>\<open>model\<close>.
\<close>

theorem pointnet_bound_names_not_only_four:
  "''run'' \<in> set (names_at_end (run_all 0 pointnet_notebook))
   \<and> set (names_at_end (run_all 0 pointnet_notebook)) - set builtins
       \<noteq> {''query_data'', ''index_data'', ''train_data'', ''model''}"
proof
  have names: "names_at_end (run_all 0 pointnet_notebook) =
      [''print'', ''finetuner'', ''DocumentArray'', ''Document'', ''train_data'',
       ''query_data'', ''index_data'', ''EvaluationCallback'', ''run'', ''artifact'', ''model'']"
    by code_simp
  show "''run'' \<in> set (names_at_end (run_all 0 pointnet_notebook))"
    unfolding names by simp
  have "''run'' \<in> set (names_at_end (run_all 0 pointnet_notebook)) - set builtins"
    unfolding names builtins_def by simp
  moreover have "''run'' \<notin> {''query_data'', ''index_data'', ''train_data'', ''model''}"
    by simp
  ultimately show "set (names_at_end (run_all 0 pointnet_notebook)) - set builtins
       \<noteq> {''query_data'', ''index_data'', ''train_data'', ''model''}"
    by (rule not_equal_by_member)
qed

subsection \<open>Notebooks: the monitoring loop\<close>

lemma print_entries_append: "print_entries printed entries = printed @ entries"
proof -
  have "foldl (\<lambda>out entry. out @ [entry]) printed entries = printed @ entries"
    by (induction entries arbitrary: printed) simp_all
  then show ?thesis by (simp add: print_entries_def)
qed

lemma monitor_ends:
  assumes "terminal (fst (run T))" and "t \<le> T"
    and "\<forall>u. t \<le> u \<and> u < T \<longrightarrow> \<not> terminal (fst (run u))"
  shows "monitor run t printed = Some (printed @ concat (map (\<lambda>u. snd (run u)) [t..<Suc T]))"
  using assms
proof (induction "T - t" arbitrary: t printed)
  case 0
  then have "t = T" by simp
  with "0.prems"(1) show ?case
    by (subst monitor.simps) (simp add: print_entries_append)
next
  case (Suc k)
  then have lt: "t < T" by simp
  with Suc.prems(3) have nt: "\<not> terminal (fst (run t))" by simp
  have "monitor run (Suc t) (printed @ snd (run t)) =
      Some ((printed @ snd (run t)) @ concat (map (\<lambda>u. snd (run u)) [Suc t..<Suc T]))"
  proof (rule Suc.hyps(1))
    show "k = T - Suc t" using Suc.hyps(2) by simp
    show "terminal (fst (run T))" by (rule Suc.prems(1))
    show "Suc t \<le> T" using lt by simp
    show "\<forall>u. Suc t \<le> u \<and> u < T \<longrightarrow> \<not> terminal (fst (run u))"
      using Suc.prems(3) by simp
  qed
  moreover have "[t..<Suc T] = t # [Suc t..<Suc T]"
    using lt by (simp add: upt_conv_Cons)
  ultimately show ?case
    using nt by (subst monitor.simps) (simp add: print_entries_append)
qed

lemma monitor_returns_terminal:
  assumes "monitor run t printed = Some r"
  shows "\<exists>T. terminal (fst (run T))"
proof (rule monitor.raw_induct [OF _ assms])
  fix monitor' run t printed r
  assume "\<And>run t printed r. monitor' run t printed = Some r \<Longrightarrow> \<exists>T. terminal (fst (run T))"
    and "(if terminal (fst (run t)) then Some (print_entries printed (snd (run t)))
          else monitor' run (Suc t) (print_entries printed (snd (run t)))) = Some r"
  then show "\<exists>T. terminal (fst (run T))"
    by (cases "terminal (fst (run t))") auto
qed

lemma monitor_result:
  "monitor run 0 [] =
     (if \<exists>T. terminal (fst (run T))
      then Some (concat (map (\<lambda>u. snd (run u)) [0..<Suc (LEAST T. terminal (fst (run T)))]))
      else None)"
proof (cases "\<exists>T. terminal (fst (run T))")
  case True
  define L where "L = (LEAST T. terminal (fst (run T)))"
  from True have 1: "terminal (fst (run L))"
    unfolding L_def by (auto intro: LeastI)
  have 2: "\<forall>u. 0 \<le> u \<and> u < L \<longrightarrow> \<not> terminal (fst (run u))"
    unfolding L_def using not_less_Least by blast
  have "monitor run 0 [] = Some ([] @ concat (map (\<lambda>u. snd (run u)) [0..<Suc L]))"
    using 1 _ 2 by (rule monitor_ends) simp
  then have "monitor run 0 [] = Some (concat (map (\<lambda>u. snd (run u)) [0..<Suc L]))"
    by (simp only: append_Nil)
  with True show ?thesis
    unfolding L_def by (simp only: if_True)
next
  case False
  have "monitor run 0 [] = None"
  proof (cases "monitor run 0 []")
    case None
    then show ?thesis .
  next
    case (Some r)
    then have "\<exists>T. terminal (fst (run T))" by (rule monitor_returns_terminal)
    with False show ?thesis by contradiction
  qed
  with False show ?thesis by (simp only: if_False)
qed

lemma loops_notebooks:
  "map loops notebooks = [[monitoring], [monitoring], [monitoring], [monitoring], [monitoring]]"
  by (simp add: loops_def notebooks_def mclip_notebook_def clip_notebook_def
      pointnet_notebook_def bert_notebook_def resnet_notebook_def pip_install_def
      import_finetuner_def import_docarray_def login_def pull_def summary_def
      save_artifact_def encode_def)
    (simp add: monitoring_def)

text \<open>A run that is found created, then started with two entries, then finished with one.\<close>

lemma monitor_example:
  "monitor (\<lambda>t. if t = 0 then (CREATED, []) else if t = 1 then (STARTED, [''a'', ''b''])
                 else (FINISHED, [''c''])) 0 [] = Some [''a'', ''b'', ''c'']"
  by code_simp

text \<open>
  C7. Every notebook has one loop, \<^verbatim>\<open>for entry in run.stream_logs(): print(entry)\<close>. The
  loop ends if and only if the remote run reaches a terminal status (FINISHED or FAILED);
  when it ends, it has printed the log entries of all polls up to the first one that finds
  the run in a terminal status, each entry once and in the order of arrival.
\<close>

theorem monitoring_loop_prints_until_terminal:
  "map loops notebooks = [[monitoring], [monitoring], [monitoring], [monitoring], [monitoring]]
   \<and> monitoring = For ''entry'' [Stream_logs] [''run''] [Exec [] [] [''print'', ''entry'']]
   \<and> monitor run 0 [] =
       (if \<exists>T. terminal (fst (run T))
        then Some (concat (map (\<lambda>u. snd (run u)) [0..<Suc (LEAST T. terminal (fst (run T)))]))
        else None)"
  using loops_notebooks monitor_result [of run] by (simp only: monitoring_def simp_thms)

subsection \<open>Notebooks: inference\<close>

text \<open>
  C4. Encoding a DocumentArray of exactly one document with a 512-dimensional text encoder,
  the \<^verbatim>\<open>clip-text\<close> sub-model selected from an artifact, gives embeddings of shape (1, 512).
\<close>

theorem encode_one_document_shape:
  assumes "get_model artifact ''clip-text'' = Some m"
    and "dimensional m 512"
    and "length da = 1"
  shows "shape (embeddings (finetuner_encode m da)) = Some (1, 512)"
proof -
  from assms(3) obtain d where da: "da = [d]"
    by (cases da) auto
  from assms(2) have "length (forward m d) = 512"
    by (simp add: dimensional_def)
  then show ?thesis
    by (simp add: da finetuner_encode_def embeddings_def shape_def)
qed

theorem encode_one_document_shape_witness:
  "shape (embeddings (finetuner_encode
      \<lparr>output_dim = 512, forward = (\<lambda>d. replicate 512 (0 :: int))\<rparr>
      [\<lparr>doc_text = ''some text to encode'', uri = [], embedding = None\<rparr>])) = Some (1, 512)"
  using encode_one_document_shape
    [of "[(''clip-vision'', \<lparr>output_dim = 512, forward = (\<lambda>d. replicate 512 0)\<rparr>),
          (''clip-text'', \<lparr>output_dim = 512, forward = (\<lambda>d. replicate 512 (0 :: int))\<rparr>)]"
        "\<lparr>output_dim = 512, forward = (\<lambda>d. replicate 512 (0 :: int))\<rparr>"
        "[\<lparr>doc_text = ''some text to encode'', uri = [], embedding = None\<rparr>]"]
  by (simp add: get_model_def dimensional_def)

subsection \<open>Notebooks: \<^verbatim>\<open>plot_matches\<close>\<close>

lemma plot_loop_length:
  "int (length (shown_results (plot_loop n (enumerate k xs) st)))
     \<le> int (length (shown_results st)) + max 0 (n - int k)"
proof (induction xs arbitrary: k st)
  case Nil
  then show ?case by simp
next
  case (Cons x xs)
  obtain pt_q ft_q where x: "x = (pt_q, ft_q)" by (cases x)
  show ?case
  proof (cases "int k \<ge> n")
    case True
    then show ?thesis by (simp add: x)
  next
    case False
    then have m: "max 0 (n - int k) = 1 + max 0 (n - int (Suc k))" by simp
    show ?thesis
    proof (cases "query_text pt_q \<in> seen st")
      case True
      with False Cons.IH [of "Suc k" "st\<lparr>counter := Some (int k - 1)\<rparr>"] m
      show ?thesis by (simp add: x)
    next
      case notin: False
      let ?st = "st\<lparr>counter := Some (int k), seen := insert (query_text pt_q) (seen st),
        shown_results := shown_results st @
          [\<lparr>shown_text = query_text pt_q, zero_shot = take 1 (query_matches pt_q),
            fine_tuned = take 1 (query_matches ft_q)\<rparr>]\<rparr>"
      from False notin Cons.IH [of "Suc k" ?st] m
      show ?thesis by (simp add: x)
    qed
  qed
qed

lemma plot_loop_shown_once: "shown_once st \<Longrightarrow> shown_once (plot_loop n ps st)"
proof (induction ps arbitrary: st)
  case Nil
  then show ?case by simp
next
  case (Cons p ps)
  obtain idx pt_q ft_q where p: "p = (idx, pt_q, ft_q)" by (cases p)
  have 1: "shown_once (st\<lparr>counter := c\<rparr>)" for c
    using Cons.prems by (simp add: shown_once_def)
  have 2: "shown_once (st\<lparr>counter := c, seen := insert (query_text pt_q) (seen st),
        shown_results := shown_results st @
          [\<lparr>shown_text = query_text pt_q, zero_shot = z, fine_tuned = f\<rparr>]\<rparr>)"
    if "query_text pt_q \<notin> seen st" for c z f
    using Cons.prems that by (auto simp: shown_once_def)
  show ?case
    using 1 2 Cons.IH by (simp add: p Let_def)
qed

lemma plot_loop_decrement:
  "seen st = seen st' \<Longrightarrow> shown_results st = shown_results st' \<Longrightarrow>
   seen (plot_loop n ps st) = seen (plot_loop_without_decrement n ps st')
   \<and> shown_results (plot_loop n ps st) = shown_results (plot_loop_without_decrement n ps st')"
proof (induction ps arbitrary: st st')
  case Nil
  then show ?case by simp
next
  case (Cons p ps)
  obtain idx pt_q ft_q where p: "p = (idx, pt_q, ft_q)" by (cases p)
  let ?shown = "\<lparr>shown_text = query_text pt_q, zero_shot = take 1 (query_matches pt_q),
    fine_tuned = take 1 (query_matches ft_q)\<rparr>"
  have skip: "seen (plot_loop n ps (st\<lparr>counter := Some (int idx - 1)\<rparr>)) =
        seen (plot_loop_without_decrement n ps (st'\<lparr>counter := Some (int idx)\<rparr>))
      \<and> shown_results (plot_loop n ps (st\<lparr>counter := Some (int idx - 1)\<rparr>)) =
        shown_results (plot_loop_without_decrement n ps (st'\<lparr>counter := Some (int idx)\<rparr>))"
    by (rule Cons.IH) (simp_all add: Cons.prems)
  have "show": "seen (plot_loop n ps (st\<lparr>counter := Some (int idx),
          seen := insert (query_text pt_q) (seen st),
          shown_results := shown_results st @ [?shown]\<rparr>)) =
        seen (plot_loop_without_decrement n ps (st'\<lparr>counter := Some (int idx),
          seen := insert (query_text pt_q) (seen st'),
          shown_results := shown_results st' @ [?shown]\<rparr>))
      \<and> shown_results (plot_loop n ps (st\<lparr>counter := Some (int idx),
          seen := insert (query_text pt_q) (seen st),
          shown_results := shown_results st @ [?shown]\<rparr>)) =
        shown_results (plot_loop_without_decrement n ps (st'\<lparr>counter := Some (int idx),
          seen := insert (query_text pt_q) (seen st'),
          shown_results := shown_results st' @ [?shown]\<rparr>))"
    by (rule Cons.IH) (simp_all add: Cons.prems)
  show ?case
    using Cons.prems skip "show" by (simp add: p Let_def)
qed

text \<open>
  A repeated query text uses up an iteration: with \<^verbatim>\<open>num_samples = 2\<close> and the texts
  a, a, b only a is shown.
\<close>

lemma plot_matches_example:
  "map shown_text (shown_results (plot_matches 2
     [\<lparr>query_text = ''a'', query_matches = [1 :: nat]\<rparr>,
      \<lparr>query_text = ''a'', query_matches = [2]\<rparr>,
      \<lparr>query_text = ''b'', query_matches = [3]\<rparr>]
     [\<lparr>query_text = ''a'', query_matches = [4]\<rparr>,
      \<lparr>query_text = ''a'', query_matches = [5]\<rparr>,
      \<lparr>query_text = ''b'', query_matches = [6]\<rparr>])) = [''a'']"
  by code_simp

text \<open>
  C9. For every \<^verbatim>\<open>num_samples\<close> and every two lists of queries, \<^verbatim>\<open>plot_matches\<close> shows
  results for at most \<^verbatim>\<open>num_samples\<close> queries (for none when \<^verbatim>\<open>num_samples\<close> is negative)
  and never for the same query text twice; and it shows the same results, and records the
  same texts as seen, as the function without the statement \<^verbatim>\<open>i = i - 1\<close>, since
  \<^verbatim>\<open>enumerate\<close> assigns the counter anew in every iteration.
\<close>

theorem plot_matches_shows_distinct_queries:
  "int (length (shown_results (plot_matches num_samples pt_query ft_query))) \<le> max 0 num_samples
   \<and> distinct (map shown_text (shown_results (plot_matches num_samples pt_query ft_query)))
   \<and> shown_results (plot_matches num_samples pt_query ft_query) =
       shown_results (plot_matches_without_decrement num_samples pt_query ft_query)
   \<and> seen (plot_matches num_samples pt_query ft_query) =
       seen (plot_matches_without_decrement num_samples pt_query ft_query)"
proof -
  let ?st = "\<lparr>counter = None, seen = {}, shown_results = []\<rparr> :: 'a plot_state"
  have "int (length (shown_results (plot_matches num_samples pt_query ft_query))) \<le> max 0 num_samples"
    using plot_loop_length [of num_samples 0 "zip pt_query ft_query" ?st]
    by (simp add: plot_matches_def)
  moreover have "shown_once ?st"
    by (simp add: shown_once_def)
  then have "shown_once (plot_matches num_samples pt_query ft_query)"
    unfolding plot_matches_def by (rule plot_loop_shown_once)
  then have "distinct (map shown_text (shown_results (plot_matches num_samples pt_query ft_query)))"
    by (simp add: shown_once_def)
  moreover have "seen (plot_matches num_samples pt_query ft_query) =
       seen (plot_matches_without_decrement num_samples pt_query ft_query)
     \<and> shown_results (plot_matches num_samples pt_query ft_query) =
       shown_results (plot_matches_without_decrement num_samples pt_query ft_query)"
    unfolding plot_matches_def plot_matches_without_decrement_def
    by (rule plot_loop_decrement) simp_all
  ultimately show ?thesis by simp
qed

end
